theory Spec2Isabelle
  imports Complex_Main
begin

section \<open>JavaScript values and array primitives\<close>

text \<open>
  The library is TypeScript. The values that flow through it untyped (queue items,
  job data, results, rejection reasons, thrown values) are modelled by \<open>jsval\<close>. An
  object carries the kind of its prototype and the value of its \<open>message\<close> property, the
  only property the code reads (\<open>JUndefined\<close> when the property is absent); reading it
  has no effect, so accessor properties and proxies are left out. A number is a real;
  NaN, the infinities and bigints are left out. Objects are compared by their value
  here, by identity in JavaScript: two objects of a list are taken to differ in value.
\<close>

datatype jsclass = PlainObject | ErrorObject | ArrayObject | OtherObject

datatype jsval =
    JUndefined
  | JNull
  | JBool bool
  | JNum real
  | JStr string
  | JSymbol nat
  | JFunction nat
  | JObject jsclass jsval

text \<open>ToBoolean, as applied by \<open>if(x)\<close>, \<open>!x\<close> and \<open>x && y\<close>.\<close>

fun truthy :: "jsval \<Rightarrow> bool" where
  "truthy JUndefined = False"
| "truthy JNull = False"
| "truthy (JBool b) = b"
| "truthy (JNum n) = (n \<noteq> 0)"
| "truthy (JStr s) = (s \<noteq> [])"
| "truthy (JSymbol y) = True"
| "truthy (JFunction f) = True"
| "truthy (JObject c m) = True"

fun typeof :: "jsval \<Rightarrow> string" where
  "typeof JUndefined = ''undefined''"
| "typeof JNull = ''object''"
| "typeof (JBool b) = ''boolean''"
| "typeof (JNum n) = ''number''"
| "typeof (JStr s) = ''string''"
| "typeof (JSymbol y) = ''symbol''"
| "typeof (JFunction f) = ''function''"
| "typeof (JObject c m) = ''object''"

text \<open>
  The exceptions the code meets: \<open>new Exception(message)\<close> of \<open>_internals/errors\<close>, taken
  to extend \<open>Error\<close>, and the TypeError of the language.
\<close>

definition Exception :: "string \<Rightarrow> jsval" where
  "Exception message = JObject ErrorObject (JStr message)"

definition TypeError :: "string \<Rightarrow> jsval" where
  "TypeError message = JObject ErrorObject (JStr message)"

fun instanceof_Error :: "jsval \<Rightarrow> bool" where
  "instanceof_Error (JObject ErrorObject m) = True"
| "instanceof_Error v = False"

text \<open>
  \<open>Array.prototype.findIndex\<close>: the index of the first element satisfying the predicate,
  \<open>-1\<close> when there is none. \<open>indexOf\<close> is the same search with strict equality.
\<close>

fun findIndex :: "('a \<Rightarrow> bool) \<Rightarrow> 'a list \<Rightarrow> int" where
  "findIndex p [] = -1"
| "findIndex p (x # xs) =
     (if p x then 0 else (let i = findIndex p xs in if i < 0 then -1 else i + 1))"

definition indexOf :: "'a list \<Rightarrow> 'a \<Rightarrow> int" where
  "indexOf xs x = findIndex (\<lambda>y. y = x) xs"

text \<open>
  \<open>xs.splice(start, 1)\<close>: a negative \<open>start\<close> counts from the end (clamped at 0), a
  \<open>start\<close> beyond the end removes nothing. The result is the removed elements and the
  array that remains.
\<close>

definition splice1 :: "int \<Rightarrow> 'a list \<Rightarrow> 'a list \<times> 'a list" where
  "splice1 start xs =
     (let len = int (length xs);
          k = nat (if start < 0 then max (len + start) 0 else min start len)
      in (take 1 (drop k xs), take k xs @ drop (Suc k) xs))"

section \<open>Ordered queue: \<open>_internals/stack.ts\<close>\<close>

datatype Order = FIFO | LIFO

text \<open>The numeric value of the enum members: \<open>Order.FIFO\<close> is 0 and \<open>Order.LIFO\<close> is 1.\<close>

fun Order_value :: "Order \<Rightarrow> int" where
  "Order_value FIFO = 0"
| "Order_value LIFO = 1"

text \<open>\<open>StackInit.order\<close> is a string, a number, or absent.\<close>

datatype order_init = OrderName string | OrderNumber int

record 'a Stack =
  order :: Order
  items :: "'a list"

text \<open>
  The constructor. \<open>!props.order\<close> holds for an absent order and also for the falsy
  values \<open>0\<close> and the empty string.
\<close>

definition Stack_new :: "order_init option \<Rightarrow> 'a Stack" where
  "Stack_new props_order =
     \<lparr> order =
         (case props_order of
            None \<Rightarrow> LIFO
          | Some (OrderNumber n) \<Rightarrow>
              if n = 0 then LIFO
              else if n = Order_value FIFO then FIFO else LIFO
          | Some (OrderName s) \<Rightarrow>
              if s = [] then LIFO
              else if s = ''fifo'' then FIFO else LIFO),
       items = [] \<rparr>"

text \<open>\<open>push(...items)\<close>: \<open>Array.push\<close> appends in FIFO order, \<open>Array.unshift\<close> prepends otherwise.\<close>

definition push :: "'a list \<Rightarrow> 'a Stack \<Rightarrow> 'a Stack" where
  "push new s =
     (if order s = FIFO then s\<lparr>items := items s @ new\<rparr>
      else s\<lparr>items := new @ items s\<rparr>)"

definition peek :: "'a Stack \<Rightarrow> 'a option" where
  "peek s = (if length (items s) > 0 then Some (items s ! (length (items s) - 1)) else None)"

text \<open>
  \<open>pop()\<close>. The first \<open>splice\<close> takes the item out. When the item is truthy the method
  then looks the item up again with \<open>indexOf\<close> and splices at the index found; the first
  argument is the truthiness of the item type. \<open>indexOf\<close> compares with strict equality,
  objects by identity: the objects of a queue are taken to differ in value (jobs have
  distinct ids).
\<close>

definition pop :: "('a \<Rightarrow> bool) \<Rightarrow> 'a Stack \<Rightarrow> 'a option \<times> 'a Stack" where
  "pop truthy_item s =
     (if length (items s) > 0 then
        (case splice1 (if order s = FIFO then 0 else int (length (items s)) - 1) (items s) of
           ([], rest) \<Rightarrow> (None, s\<lparr>items := rest\<rparr>)
         | (item # _, rest) \<Rightarrow>
             if truthy_item item
             then (Some item, s\<lparr>items := snd (splice1 (indexOf rest item) rest)\<rparr>)
             else (Some item, s\<lparr>items := rest\<rparr>))
      else (None, s))"

definition size_stack :: "'a Stack \<Rightarrow> nat" where
  "size_stack s = length (items s)"

definition isEmpty :: "'a Stack \<Rightarrow> bool" where
  "isEmpty s = (length (items s) = 0)"

definition clear :: "'a Stack \<Rightarrow> 'a Stack" where
  "clear s = s\<lparr>items := []\<rparr>"

section \<open>Code of the caller and of the runtime\<close>

text \<open>
  A job is plain data; it is declared here because the processing function of a
  scheduler takes it.
\<close>

record JobOptions =
  timeout :: "real option"
  delay :: "real option"

record Job =
  data :: jsval
  jobId :: string
  queuedAt :: nat
  messageType :: "string option"
  options :: JobOptions

text \<open>
  Code that is not under the sources decides some steps: it is collected in one
  parameter. \<open>isPlainObject\<close> is the helper of \<open>_internals/utils\<close>. \<open>numberToString\<close> prints
  a number as a template string does. \<open>objectToString\<close> is the conversion of an object
  or a function to a string, which runs the \<open>toString\<close> of the object and may throw
  (\<open>Inl\<close>). \<open>listenerThrows\<close> gives what a call of a listener throws, \<open>None\<close> when the call
  returns; \<open>processorThrows\<close> gives what a call of a processing function on a job throws,
  \<open>None\<close> when the call returns a promise.
\<close>

record environment =
  isPlainObject :: "jsval \<Rightarrow> bool"
  numberToString :: "real \<Rightarrow> string"
  objectToString :: "jsval \<Rightarrow> jsval + string"
  listenerThrows :: "nat \<Rightarrow> jsval option"
  processorThrows :: "nat \<Rightarrow> Job \<Rightarrow> jsval option"

text \<open>ToString of the language: a symbol has no string form, the conversion throws.\<close>

fun ToString :: "environment \<Rightarrow> jsval \<Rightarrow> jsval + string" where
  "ToString env JUndefined = Inr ''undefined''"
| "ToString env JNull = Inr ''null''"
| "ToString env (JBool b) = Inr (if b then ''true'' else ''false'')"
| "ToString env (JNum n) = Inr (numberToString env n)"
| "ToString env (JStr s) = Inr s"
| "ToString env (JSymbol y) = Inl (TypeError ''Cannot convert a Symbol value to a string'')"
| "ToString env (JFunction f) = objectToString env (JFunction f)"
| "ToString env (JObject c m) = objectToString env (JObject c m)"

text \<open>
  \<open>new Error(message)\<close>: an \<open>undefined\<close> argument leaves the message empty, any other is
  converted with ToString, so the constructor throws where the conversion does.
\<close>

definition Error_new :: "environment \<Rightarrow> jsval \<Rightarrow> jsval + jsval" where
  "Error_new env message =
     (if message = JUndefined then Inr (JObject ErrorObject (JStr []))
      else (case ToString env message of
              Inl thrown \<Rightarrow> Inl thrown
            | Inr text \<Rightarrow> Inr (JObject ErrorObject (JStr text))))"

text \<open>\<open>err.message ?? err\<close> for an \<open>err\<close> that is neither \<open>null\<close> nor \<open>undefined\<close>.\<close>

definition message_or_self :: "jsval \<Rightarrow> jsval" where
  "message_or_self err =
     (case err of
        JObject c message \<Rightarrow> if message = JUndefined \<or> message = JNull then err else message
      | _ \<Rightarrow> err)"

section \<open>Event emitter: the events module\<close>

text \<open>
  A listener is a callback of the caller, identified by a number; whether a call of it
  returns or throws is given by \<open>listenerThrows\<close>. A listener that calls back into the
  emitter while it runs is outside this model. The signature (a hash of the listener's
  text) and the subscription id (a fresh uuid) are inputs of the model; subscription ids
  are taken to be distinct, so no subscription object occurs twice in a list. The option
  \<open>onListenerError\<close> of the constructor is a callback too: it is given by what it throws
  for an error, \<open>None\<close> when it returns.
\<close>

record ListenerSubscription =
  listener :: nat
  listenerSignature :: string
  subscriptionId :: string
  once :: bool
  calls :: nat
  isDisposed :: bool
  eventName :: string

record EventEmitter =
  ee_size :: int
  ee_disposed :: bool
  ee_listeners :: "string \<rightharpoonup> ListenerSubscription list"
  ee_onListenerError :: "(jsval \<Rightarrow> jsval option) option"

text \<open>\<open>new EventEmitter()\<close> and \<open>new EventEmitter({ onListenerError })\<close>.\<close>

definition EventEmitter_new :: EventEmitter where
  "EventEmitter_new =
     \<lparr> ee_size = 0, ee_disposed = False, ee_listeners = Map.empty, ee_onListenerError = None \<rparr>"

definition EventEmitter_with :: "(jsval \<Rightarrow> jsval option) \<Rightarrow> EventEmitter" where
  "EventEmitter_with handler = EventEmitter_new\<lparr> ee_onListenerError := Some handler \<rparr>"

text \<open>Sequencing of calls that may throw: the first exception ends the sequence.\<close>

definition and_then :: "'e + 'a \<Rightarrow> ('a \<Rightarrow> 'e + 'b) \<Rightarrow> 'e + 'b" where
  "and_then r f = (case r of Inl e \<Rightarrow> Inl e | Inr x \<Rightarrow> f x)"

text \<open>
  The \<open>unsubscribe\<close> closure of a subscription: it searches the list of the event for the
  first entry with the subscription's signature, removes it and decrements \<open>_size\<close>.
\<close>

definition unsubscribe ::
  "string \<Rightarrow> ListenerSubscription list \<times> int \<Rightarrow> ListenerSubscription list \<times> int" where
  "unsubscribe sig st =
     (let index = findIndex (\<lambda>item. listenerSignature item = sig) (fst st)
      in if index > -1 then (snd (splice1 index (fst st)), snd st - 1) else st)"

text \<open>\<open>subscribe(event, listener, thisArgs, options)\<close>, with the hash and the uuid passed in.\<close>

definition subscribe ::
  "string \<Rightarrow> nat \<Rightarrow> string \<Rightarrow> string \<Rightarrow> bool \<Rightarrow> EventEmitter \<Rightarrow> jsval + EventEmitter" where
  "subscribe event l sig sid once_option ee =
     (if ee_disposed ee then Inl (Exception ''EventEmitter has been disposed'')
      else
        (let previousListeners = (case ee_listeners ee event of None \<Rightarrow> [] | Some ls \<Rightarrow> ls);
             self = \<lparr> listener = l, listenerSignature = sig, subscriptionId = sid,
                      once = once_option, calls = 0, isDisposed = False, eventName = event \<rparr>
         in Inr (ee\<lparr> ee_listeners := (ee_listeners ee)(event \<mapsto> previousListeners @ [self]),
                     ee_size := ee_size ee + 1 \<rparr>)))"

text \<open>
  The error handler of \<open>emit\<close>: the option of the constructor, or else the default
  \<^verbatim>\<open>err => { logger.warn(`[uncaught exception]: ${err.message ?? err}`); ... }\<close>
  which throws a TypeError when \<open>err\<close> is \<open>null\<close> or \<open>undefined\<close>, and throws what the
  conversion of the message to a string throws. The logger is taken to return.
\<close>

definition default_errorHandler :: "environment \<Rightarrow> jsval \<Rightarrow> jsval option" where
  "default_errorHandler env err =
     (if err = JNull \<or> err = JUndefined
      then Some (TypeError ''Cannot read properties of null or undefined (reading message)'')
      else (case ToString env (message_or_self err) of
              Inl thrown \<Rightarrow> Some thrown
            | Inr text \<Rightarrow> None))"

definition errorHandler :: "environment \<Rightarrow> EventEmitter \<Rightarrow> jsval \<Rightarrow> jsval option" where
  "errorHandler env ee err =
     (case ee_onListenerError ee of
        Some handler \<Rightarrow> handler err
      | None \<Rightarrow> default_errorHandler env err)"

text \<open>
  The \<open>try\<close> statement around the call of one listener: what leaves it is what the
  error handler throws for the error of the listener.
\<close>

definition call_listener ::
  "environment \<Rightarrow> (jsval \<Rightarrow> jsval option) \<Rightarrow> ListenerSubscription \<Rightarrow> jsval option" where
  "call_listener env handler subscription =
     (case listenerThrows env (listener subscription) of
        None \<Rightarrow> None
      | Some err \<Rightarrow> handler err)"

text \<open>
  The tail of one iteration of the loop of \<open>emit\<close>, after the listener was called:
  \<open>calls++\<close> on the subscription at position \<open>i\<close>, then \<open>findIndex\<close> by subscription id,
  \<open>splice\<close> and \<open>push\<close>, which move the subscription to the back of the list.
\<close>

definition requeue :: "nat \<Rightarrow> ListenerSubscription list \<Rightarrow> ListenerSubscription list" where
  "requeue i ls =
     (let subscription = (ls ! i)\<lparr> calls := calls (ls ! i) + 1 \<rparr>;
          ls1 = ls[i := subscription];
          index = findIndex (\<lambda>item. subscriptionId item = subscriptionId subscription) ls1
      in if index > -1 then snd (splice1 index ls1) @ [subscription] else ls1)"

lemma findIndex_bounds: "-1 \<le> findIndex p xs \<and> findIndex p xs < int (length xs)"
  by (induction xs) (auto simp: Let_def)

lemma length_splice1: "length (snd (splice1 i xs)) \<le> length xs"
  by (simp add: splice1_def Let_def)

lemma length_splice1_in_range:
  "0 \<le> i \<Longrightarrow> i < int (length xs) \<Longrightarrow> Suc (length (snd (splice1 i xs))) = length xs"
  by (auto simp: splice1_def Let_def min_def)

lemma length_unsubscribe: "length (fst (unsubscribe sig (ls, sz))) \<le> length ls"
  by (simp add: unsubscribe_def Let_def length_splice1)

lemma length_requeue: "i < length ls \<Longrightarrow> length (requeue i ls) \<le> length ls"
proof -
  assume "i < length ls"
  define sub where "sub = (ls ! i)\<lparr> calls := calls (ls ! i) + 1 \<rparr>"
  define k where "k = findIndex (\<lambda>item. subscriptionId item = subscriptionId sub) (ls[i := sub])"
  have "k < int (length (ls[i := sub]))"
    unfolding k_def using findIndex_bounds by blast
  then have "k > -1 \<Longrightarrow> Suc (length (snd (splice1 k (ls[i := sub])))) = length (ls[i := sub])"
    by (intro length_splice1_in_range) auto
  then show ?thesis
    by (auto simp: requeue_def Let_def sub_def k_def)
qed

text \<open>
  The \<open>for ... of\<close> loop of \<open>emit\<close> over the list of the event. The array iterator reads
  the live array: at each step it compares its index with the current length and reads
  the element at that index. The loop carries the index, the list, \<open>_size\<close> and the
  identifiers of the subscriptions whose listener was called, in call order. An
  exception that leaves the \<open>try\<close> statement ends the loop and leaves \<open>emit\<close>, before
  \<open>calls++\<close>.
\<close>

function emit_loop ::
  "environment \<Rightarrow> (jsval \<Rightarrow> jsval option) \<Rightarrow> nat \<Rightarrow> ListenerSubscription list \<Rightarrow> int
     \<Rightarrow> string list \<Rightarrow> jsval option \<times> ListenerSubscription list \<times> int \<times> string list" where
  "emit_loop env handler i ls sz invoked =
     (if i < length ls then
        (if isDisposed (ls ! i) then emit_loop env handler (Suc i) ls sz invoked
         else if once (ls ! i) \<and> calls (ls ! i) > 0 then
           emit_loop env handler (Suc i)
             (fst (unsubscribe (listenerSignature (ls ! i)) (ls, sz)))
             (snd (unsubscribe (listenerSignature (ls ! i)) (ls, sz)))
             invoked
         else if call_listener env handler (ls ! i) \<noteq> None then
           (call_listener env handler (ls ! i), ls, sz, invoked @ [subscriptionId (ls ! i)])
         else
           emit_loop env handler (Suc i) (requeue i ls) sz (invoked @ [subscriptionId (ls ! i)]))
      else (None, ls, sz, invoked))"
  by pat_completeness auto
termination
proof (relation "measure (\<lambda>(env, handler, i, ls, sz, invoked). length ls - i)", goal_cases)
  case 1
  show ?case by simp
next
  case (2 env handler i ls sz invoked)
  then show ?case by simp
next
  case (3 env handler i ls sz invoked)
  then show ?case
    using length_unsubscribe [of "listenerSignature (ls ! i)" ls sz] by simp
next
  case (4 env handler i ls sz invoked)
  then show ?case
    using length_requeue [of i ls] by simp
qed

declare emit_loop.simps [simp del]

text \<open>
  \<open>emit(event, ...args)\<close>: the exception that leaves the call, if any; the calls made,
  in place of the array of results, which has one entry for each call that returned
  (\<open>None\<close> where the method returns before the loop); and the emitter after the call. It
  throws on a disposed emitter and returns \<open>undefined\<close> when the event has no entry in
  the map.
\<close>

definition emit ::
  "environment \<Rightarrow> string \<Rightarrow> EventEmitter
     \<Rightarrow> jsval option \<times> string list option \<times> EventEmitter" where
  "emit env event ee =
     (if ee_disposed ee then (Some (Exception ''EventEmitter has been disposed''), None, ee)
      else
        (case ee_listeners ee event of
           None \<Rightarrow> (None, None, ee)
         | Some ls \<Rightarrow>
             (case emit_loop env (errorHandler env ee) 0 ls (ee_size ee) [] of
                (thrown, ls', sz', invoked) \<Rightarrow>
                  (thrown, Some invoked,
                   ee\<lparr> ee_listeners := (ee_listeners ee)(event \<mapsto> ls'), ee_size := sz' \<rparr>))))"

definition removeListeners :: "EventEmitter \<Rightarrow> jsval + EventEmitter" where
  "removeListeners ee =
     (if ee_disposed ee then Inl (Exception ''EventEmitter has been disposed'')
      else Inr (ee\<lparr> ee_listeners := Map.empty, ee_size := 0 \<rparr>))"

definition EventEmitter_dispose :: "EventEmitter \<Rightarrow> EventEmitter" where
  "EventEmitter_dispose ee =
     (if ee_disposed ee then ee
      else ee\<lparr> ee_listeners := Map.empty, ee_size := 0, ee_disposed := True \<rparr>)"

section \<open>Deferred: the deferred module\<close>

datatype 'a PromiseState = Pending | FulfilledWith 'a | RejectedWith jsval

datatype 'a DeferredOutcome = Resolved 'a | Rejected jsval

text \<open>
  A \<open>Deferred\<close> holds a promise and the outcome it recorded last. \<open>resolve\<close> and \<open>reject\<close>
  call the promise's own resolving functions, which take effect on a pending promise
  only, and then overwrite \<open>_outcome\<close>.
\<close>

record 'a Deferred =
  promise :: "'a PromiseState"
  outcome :: "'a DeferredOutcome option"

definition Deferred_new :: "'a Deferred" where
  "Deferred_new = \<lparr> promise = Pending, outcome = None \<rparr>"

definition Deferred_resolve :: "'a \<Rightarrow> 'a Deferred \<Rightarrow> 'a Deferred" where
  "Deferred_resolve v d =
     \<lparr> promise = (case promise d of Pending \<Rightarrow> FulfilledWith v | p \<Rightarrow> p),
       outcome = Some (Resolved v) \<rparr>"

definition Deferred_reject :: "jsval \<Rightarrow> 'a Deferred \<Rightarrow> 'a Deferred" where
  "Deferred_reject reason d =
     \<lparr> promise = (case promise d of Pending \<Rightarrow> RejectedWith reason | p \<Rightarrow> p),
       outcome = Some (Rejected reason) \<rparr>"

section \<open>Bounded concurrency runner: \<open>concurrently.ts\<close>\<close>

text \<open>
  A work item is a function typed to return a promise. A call of it either returns a
  promise, modelled by what that promise settles with, or throws before it returns
  one (as does the \<open>.then\<close> on what it returns, when that is not a promise). Whether and
  when a promise settles is decided by the schedule, a list of events
  of the JavaScript runtime. \<open>results\<close> is a JavaScript array written by index: a slot
  that was never written is a hole (\<open>None\<close>), and writing past the end extends the array.
\<close>

datatype settlement = Resolves jsval | Rejects jsval

datatype worker = Returns settlement | Throws jsval

datatype Result = Result_fulfilled jsval | Result_rejected jsval

fun to_result :: "settlement \<Rightarrow> Result" where
  "to_result (Resolves v) = Result_fulfilled v"
| "to_result (Rejects reason) = Result_rejected reason"

text \<open>The slot of the results array that a work item ends with, once it has settled.\<close>

fun entry :: "worker \<Rightarrow> Result option" where
  "entry (Returns p) = Some (to_result p)"
| "entry (Throws e) = None"

fun returns :: "worker \<Rightarrow> bool" where
  "returns (Returns p) = True"
| "returns (Throws e) = False"

definition array_set :: "'a option list \<Rightarrow> nat \<Rightarrow> 'a \<Rightarrow> 'a option list" where
  "array_set xs i v =
     (if i < length xs then xs[i := Some v]
      else xs @ replicate (i - length xs) None @ [Some v])"

text \<open>
  The variables of one call: \<open>cursor\<close>, \<open>settled\<close>, \<open>results\<close> and \<open>deferred\<close> are the
  locals of the source. \<open>inflight\<close> holds the promises returned by the work items and not
  yet settled, each with its index; \<open>immediates\<close> counts the \<open>EventLoop.immediate(next)\<close>
  callbacks that were scheduled and have not run yet; \<open>uncaught\<close> records the exceptions
  that left such a callback.
\<close>

record Runner =
  cursor :: nat
  settled :: nat
  results :: "Result option list"
  deferred :: "Result option list Deferred"
  inflight :: "(nat \<times> settlement) list"
  immediates :: nat
  uncaught :: "jsval list"

definition Runner_init :: Runner where
  "Runner_init = \<lparr> cursor = 0, settled = 0, results = [], deferred = Deferred_new,
                    inflight = [], immediates = 0, uncaught = [] \<rparr>"

text \<open>
  The closure \<open>next\<close>: the exception that leaves it, if any, and the variables after
  it. Both entry points have the same body; they differ in the call that starts item
  \<open>index\<close>, given here as \<open>start_item\<close>, and in the list whose length \<open>n\<close> bounds the
  cursor. The call of the work item stands outside any \<open>try\<close>: what it throws leaves
  \<open>next\<close>, after \<open>cursor++\<close>.
\<close>

definition next_item :: "nat \<Rightarrow> (nat \<Rightarrow> worker) \<Rightarrow> Runner \<Rightarrow> jsval option \<times> Runner" where
  "next_item n start_item r =
     (if cursor r < n then
        (case start_item (cursor r) of
           Throws e \<Rightarrow> (Some e, r\<lparr> cursor := cursor r + 1 \<rparr>)
         | Returns p \<Rightarrow>
             (None, r\<lparr> cursor := cursor r + 1, inflight := inflight r @ [(cursor r, p)] \<rparr>))
      else if settled r = n then
        (None, r\<lparr> deferred := Deferred_resolve (results r) (deferred r) \<rparr>)
      else (None, r))"

text \<open>
  \<open>while(--concurrency >= 0) next();\<close> with \<open>concurrency\<close> an integer. An exception that
  leaves \<open>next\<close> leaves the loop and the entry point.
\<close>

function launch ::
  "int \<Rightarrow> (Runner \<Rightarrow> jsval option \<times> Runner) \<Rightarrow> Runner \<Rightarrow> jsval option \<times> Runner" where
  "launch concurrency nxt r =
     (if concurrency - 1 \<ge> 0 then
        (if fst (nxt r) \<noteq> None then nxt r
         else launch (concurrency - 1) nxt (snd (nxt r)))
      else (None, r))"
  by pat_completeness auto
termination
  by (relation "measure (\<lambda>(concurrency, nxt, r). nat concurrency)") auto

declare launch.simps [simp del]

text \<open>
  The synchronous part of the two entry points: the exception thrown to the caller, if
  any, and the variables at that moment. When the entry point returns, it returns the
  promise \<open>promise (deferred r)\<close>.
\<close>

definition promiseConcurrency :: "worker list \<Rightarrow> int \<Rightarrow> jsval option \<times> Runner" where
  "promiseConcurrency callbacks concurrency =
     launch concurrency (next_item (length callbacks) (\<lambda>index. callbacks ! index)) Runner_init"

definition mapPromises :: "'args list \<Rightarrow> ('args \<Rightarrow> worker) \<Rightarrow> int \<Rightarrow> jsval option \<times> Runner" where
  "mapPromises args callback concurrency =
     launch concurrency (next_item (length args) (\<lambda>index. callback (args ! index))) Runner_init"

text \<open>
  What happens after the synchronous part. \<open>Settle index\<close>: the promise of item
  \<open>index\<close> settles and its reactions run, which write \<open>results[index]\<close>, increment
  \<open>settled\<close> and schedule \<open>next\<close> with \<open>EventLoop.immediate\<close>. \<open>Immediate\<close>: one scheduled
  \<open>next\<close> runs; an exception that leaves it is uncaught. An event that is not enabled
  changes nothing. The promises started before an exception left the entry point
  settle all the same. Where the host ends the process on an uncaught exception, the
  schedule ends there.
\<close>

datatype runner_event = Settle nat | Immediate

fun runner_step :: "nat \<Rightarrow> (nat \<Rightarrow> worker) \<Rightarrow> Runner \<Rightarrow> runner_event \<Rightarrow> Runner" where
  "runner_step n start_item r (Settle index) =
     (case map_of (inflight r) index of
        None \<Rightarrow> r
      | Some out \<Rightarrow>
          r\<lparr> inflight := filter (\<lambda>p. fst p \<noteq> index) (inflight r),
             results := array_set (results r) index (to_result out),
             settled := settled r + 1,
             immediates := immediates r + 1 \<rparr>)"
| "runner_step n start_item r Immediate =
     (if immediates r = 0 then r
      else
        (case next_item n start_item (r\<lparr> immediates := immediates r - 1 \<rparr>) of
           (None, r') \<Rightarrow> r'
         | (Some e, r') \<Rightarrow> r'\<lparr> uncaught := uncaught r' @ [e] \<rparr>))"

definition promiseConcurrency_run ::
  "worker list \<Rightarrow> int \<Rightarrow> runner_event list \<Rightarrow> Runner" where
  "promiseConcurrency_run callbacks concurrency sched =
     foldl (runner_step (length callbacks) (\<lambda>index. callbacks ! index))
       (snd (promiseConcurrency callbacks concurrency)) sched"

definition mapPromises_run ::
  "'args list \<Rightarrow> ('args \<Rightarrow> worker) \<Rightarrow> int \<Rightarrow> runner_event list \<Rightarrow> Runner" where
  "mapPromises_run args callback concurrency sched =
     foldl (runner_step (length args) (\<lambda>index. callback (args ! index)))
       (snd (mapPromises args callback concurrency)) sched"

text \<open>Item \<open>index\<close> was started and no promise of it is in flight.\<close>

definition has_settled :: "Runner \<Rightarrow> nat \<Rightarrow> bool" where
  "has_settled r index = (index < cursor r \<and> index \<notin> fst ` set (inflight r))"

subsection \<open>Invariants of a run\<close>

text \<open>The number of work items among the first \<open>k\<close> whose call returns a promise.\<close>

definition started_ok :: "(nat \<Rightarrow> worker) \<Rightarrow> nat \<Rightarrow> nat" where
  "started_ok start_item k = length (filter (\<lambda>i. returns (start_item i)) [0..<k])"

text \<open>
  What holds of the variables of a call in every state a schedule can reach: the cursor
  stays within the list; the promises in flight are those of distinct started items;
  every started item whose call returned is either in flight or counted in \<open>settled\<close>;
  every settled item has its result in its own slot; an item whose call threw has no
  result; the promise of \<open>deferred\<close> is never rejected, and it is fulfilled only with
  the complete results.
\<close>

definition runner_inv :: "nat \<Rightarrow> (nat \<Rightarrow> worker) \<Rightarrow> Runner \<Rightarrow> bool" where
  "runner_inv n start_item r =
     (cursor r \<le> n
      \<and> distinct (map fst (inflight r))
      \<and> (\<forall>p \<in> set (inflight r). fst p < cursor r \<and> start_item (fst p) = Returns (snd p))
      \<and> settled r + length (inflight r) = started_ok start_item (cursor r)
      \<and> length (results r) \<le> cursor r
      \<and> (\<forall>i < cursor r. i \<notin> fst ` set (inflight r)
            \<longrightarrow> (\<forall>p. start_item i = Returns p
                  \<longrightarrow> i < length (results r) \<and> results r ! i = Some (to_result p)))
      \<and> (\<forall>i < length (results r). \<not> returns (start_item i) \<longrightarrow> results r ! i = None)
      \<and> (\<forall>e. promise (deferred r) \<noteq> RejectedWith e)
      \<and> (\<forall>rs. promise (deferred r) = FulfilledWith rs \<longrightarrow> settled r = n \<and> rs = results r))"

text \<open>
  The work a call still has in hand, and the states in which something is still to
  happen or the promise is settled.
\<close>

definition runner_load :: "Runner \<Rightarrow> nat" where
  "runner_load r = length (inflight r) + immediates r"

definition runner_live :: "Runner \<Rightarrow> bool" where
  "runner_live r = (inflight r \<noteq> [] \<or> immediates r \<noteq> 0 \<or> promise (deferred r) \<noteq> Pending)"

section \<open>Job scheduler: \<open>event-loop.ts\<close>\<close>

subsection \<open>Events and rejection reasons\<close>

text \<open>The three event classes, with their targets: \<open>{...job, result}\<close>, \<open>{...job, error}\<close>, the loop.\<close>

datatype Event = CompletedEvent Job jsval | FailedEvent Job jsval | ProcessingEvent

text \<open>
  The conversion at the head of both \<open>catch\<close> handlers of \<open>#execute\<close>:
  \<^verbatim>\<open>if(typeof err !== 'object' || isPlainObject(err)) {
    err = new Error(typeof err === 'object' ? err.message ?? err : err); }\<close>
  Reading \<open>err.message\<close> of \<open>null\<close> throws a TypeError, and \<open>new Error\<close> throws where
  the conversion of its argument to a string does (\<open>Inl\<close>). \<open>error_argument\<close> is the
  argument of \<open>new Error\<close> for an \<open>err\<close> other than \<open>null\<close>.
\<close>

definition error_argument :: "jsval \<Rightarrow> jsval" where
  "error_argument err = (if typeof err = ''object'' then message_or_self err else err)"

definition normalize_error :: "environment \<Rightarrow> jsval \<Rightarrow> jsval + jsval" where
  "normalize_error env err =
     (if typeof err \<noteq> ''object'' \<or> isPlainObject env err then
        (if typeof err = ''object'' \<and> err = JNull
         then Inl (TypeError ''Cannot read properties of null (reading message)'')
         else Error_new env (error_argument err))
      else Inr err)"

text \<open>
  The error of a timeout:
  \<^verbatim>\<open>new Error(`Timeout of ${job.options.timeout}ms exceeded`)\<close>
\<close>

definition timeout_error :: "environment \<Rightarrow> real \<Rightarrow> jsval" where
  "timeout_error env t =
     JObject ErrorObject (JStr (''Timeout of '' @ numberToString env t @ ''ms exceeded''))"

text \<open>\<open>job.options.timeout && job.options.timeout > 0\<close>, and the same test on \<open>delay\<close>.\<close>

definition positive :: "real option \<Rightarrow> bool" where
  "positive x = (case x of None \<Rightarrow> False | Some t \<Rightarrow> t \<noteq> 0 \<and> t > 0)"

subsection \<open>The state of a scheduler and of the runtime around it\<close>

text \<open>
  The processing function is a callback of the caller, identified by a number; a call of
  it returns a promise or throws (\<open>processorThrows\<close>), and what the promise settles with
  arrives as an event. The first group of fields are the private fields of the class.
  The second group is the part of the JavaScript runtime the class hands work to: the
  microtask queue filled by \<open>EventLoop.schedule\<close>, the timers set by \<open>setTimeout\<close>, the
  promises returned by the processing function that are not settled yet, and the
  \<open>Promise.race\<close> calls that are not decided yet. The third group records what can be
  observed from outside: the calls of the processing function, the abort signals
  triggered, the events that \<open>emit\<close> took to the listeners of a live emitter, the stop
  promises resolved, and the exceptions and rejections nothing handles.
\<close>

datatype task =
    Execute
  | ProcessJob Job
  | ThenReaction Job settlement
  | CatchReaction Job settlement
  | FinallyReaction Job

datatype timer = DelayTimer Job | TimeoutTimer Job

text \<open>
  The delay a timer was set with. When a timer fires is decided by the runtime, which
  promises no more than that it is not before the delay and which clamps the delay; the
  model has the firing as an event and says nothing of its time.
\<close>

fun timer_delay :: "timer \<Rightarrow> real option" where
  "timer_delay (DelayTimer job) = delay (options job)"
| "timer_delay (TimeoutTimer job) = timeout (options job)"

record EventLoop =
  eventLoopQueueStack :: "Job Stack"
  eventLoopQueueProcessor :: "nat option"
  ee :: EventEmitter
  concurrency :: int
  stopPromise :: "unit Deferred option"
  executing :: "Job list"
  microtasks :: "task list"
  timers :: "timer list"
  running :: "Job list"
  races :: "Job list"
  dispatched :: "(nat \<times> Job) list"
  aborted :: "Job list"
  emitted :: "(string \<times> Event) list"
  stopped :: "unit Deferred list"
  unhandled :: "jsval list"

text \<open>
  The constructor and the field initialisers. The queue is created with
  \<open>{ order: Order.FIFO }\<close>, and \<open>concurrency\<close> is overwritten with 1.
\<close>

definition EventLoop_new :: EventLoop where
  "EventLoop_new =
     \<lparr> eventLoopQueueStack = Stack_new (Some (OrderNumber (Order_value FIFO))),
       eventLoopQueueProcessor = None,
       ee = EventEmitter_new,
       concurrency = 1,
       stopPromise = None,
       executing = [],
       microtasks = [], timers = [], running = [], races = [],
       dispatched = [], aborted = [], emitted = [], stopped = [], unhandled = [] \<rparr>"

definition schedule :: "task \<Rightarrow> EventLoop \<Rightarrow> EventLoop" where
  "schedule t s = s\<lparr> microtasks := microtasks s @ [t] \<rparr>"

text \<open>
  \<open>this.#ee.emit(name, event)\<close>: the thrown exception, if any, and the state after the
  call. An event passed to an emitter that is not disposed is recorded in \<open>emitted\<close>,
  also when an exception leaves the listener loop.
\<close>

definition emit_event ::
  "environment \<Rightarrow> string \<Rightarrow> Event \<Rightarrow> EventLoop \<Rightarrow> jsval option \<times> EventLoop" where
  "emit_event env name ev s =
     (case emit env name (ee s) of
        (thrown, invoked, ee') \<Rightarrow>
          if ee_disposed (ee s) then (thrown, s)
          else (thrown, s\<lparr> ee := ee', emitted := emitted s @ [(name, ev)] \<rparr>))"

subsection \<open>\<open>add\<close>, \<open>#execute\<close>, \<open>start\<close> and \<open>dispose\<close>\<close>

text \<open>\<open>add(context, type, options)\<close>; the id from \<open>shortId()\<close> and \<open>Date.now()\<close> are inputs.\<close>

definition add ::
  "jsval \<Rightarrow> string option \<Rightarrow> JobOptions \<Rightarrow> string \<Rightarrow> nat \<Rightarrow> EventLoop \<Rightarrow> int \<times> EventLoop" where
  "add context type opts new_id now s =
     (let job = \<lparr> data = context, jobId = new_id, queuedAt = now, messageType = type,
                  options = opts \<rparr>;
          s1 = schedule Execute (s\<lparr> eventLoopQueueStack := push [job] (eventLoopQueueStack s) \<rparr>)
      in (findIndex (\<lambda>j. jobId j = new_id) (items (eventLoopQueueStack s1)), s1))"

text \<open>
  The \<open>while\<close> loop of \<open>#execute\<close>: it pops jobs into \<open>#executing\<close> until the list holds
  \<open>concurrency || 1\<close> jobs or \<open>pop()\<close> returns \<open>null\<close>. A job is an object, hence truthy.
\<close>

function fill_executing :: "EventLoop \<Rightarrow> EventLoop" where
  "fill_executing s =
     (if int (length (executing s)) < (if concurrency s = 0 then 1 else concurrency s) then
        (case pop (\<lambda>job. True) (eventLoopQueueStack s) of
           (None, q) \<Rightarrow> s\<lparr> eventLoopQueueStack := q \<rparr>
         | (Some job, q) \<Rightarrow>
             fill_executing (s\<lparr> eventLoopQueueStack := q, executing := executing s @ [job] \<rparr>))
      else s)"
  by pat_completeness auto
termination
  by (relation "measure (\<lambda>s. nat ((if concurrency s = 0 then 1 else concurrency s)
                                      - int (length (executing s))))") auto

declare fill_executing.simps [simp del]

text \<open>
  The closure \<open>processJob\<close> of one job: it calls the processing function, with a
  \<open>Promise.race\<close> against a timer when the job has a positive timeout. The call stands
  first in both branches: when it throws, no race and no timer are set up, and the
  exception leaves the microtask.
\<close>

definition processJob :: "environment \<Rightarrow> Job \<Rightarrow> EventLoop \<Rightarrow> EventLoop" where
  "processJob env job s =
     (case eventLoopQueueProcessor s of
        None \<Rightarrow> s
      | Some fn \<Rightarrow>
          (case processorThrows env fn job of
             Some e \<Rightarrow>
               s\<lparr> dispatched := dispatched s @ [(fn, job)],
                  unhandled := unhandled s @ [e] \<rparr>
           | None \<Rightarrow>
               if positive (timeout (options job)) then
                 s\<lparr> dispatched := dispatched s @ [(fn, job)],
                    running := running s @ [job],
                    races := races s @ [job],
                    timers := timers s @ [TimeoutTimer job] \<rparr>
               else
                 s\<lparr> dispatched := dispatched s @ [(fn, job)],
                    running := running s @ [job] \<rparr>))"

text \<open>The body of the \<open>for\<close> loop of \<open>#execute\<close> for one job in \<open>#executing\<close>.\<close>

definition dispatch :: "EventLoop \<Rightarrow> Job \<Rightarrow> EventLoop" where
  "dispatch s job =
     (if positive (delay (options job)) then s\<lparr> timers := timers s @ [DelayTimer job] \<rparr>
      else schedule (ProcessJob job) s)"

definition execute :: "EventLoop \<Rightarrow> EventLoop" where
  "execute s =
     (if eventLoopQueueProcessor s = None then s
      else if length (executing s) > 0 then s
      else if size_stack (eventLoopQueueStack s) = 0 then s
      else (let s1 = fill_executing s in foldl dispatch s1 (executing s1)))"

text \<open>
  \<open>start(fn)\<close>: the exception thrown, if any, and the state after the call. The promise
  returned is the one of the new \<open>stopPromise\<close>.
\<close>

definition start :: "environment \<Rightarrow> nat \<Rightarrow> EventLoop \<Rightarrow> jsval option \<times> EventLoop" where
  "start env fn s =
     (if eventLoopQueueProcessor s \<noteq> None
      then (Some (Exception ''SyncQueue is already processing''), s)
      else
        (case emit_event env ''processing'' ProcessingEvent
                (schedule Execute (s\<lparr> eventLoopQueueProcessor := Some fn \<rparr>)) of
           (Some x, s1) \<Rightarrow> (Some x, s1)
         | (None, s1) \<Rightarrow> (None, s1\<lparr> stopPromise := Some Deferred_new \<rparr>)))"

text \<open>\<open>dispose()\<close>: the exception thrown, if any, and the state after the call.\<close>

definition dispose :: "EventLoop \<Rightarrow> jsval option \<times> EventLoop" where
  "dispose s =
     (let s1 = s\<lparr> eventLoopQueueProcessor := None,
                  eventLoopQueueStack := clear (eventLoopQueueStack s),
                  executing := [] \<rparr>;
          s2 = (case stopPromise s1 of
                  None \<Rightarrow> s1
                | Some d \<Rightarrow> s1\<lparr> stopped := stopped s1 @ [Deferred_resolve () d],
                                stopPromise := None \<rparr>)
      in case removeListeners (ee s2) of
           Inl x \<Rightarrow> (Some x, s2)
         | Inr ee' \<Rightarrow> (None, s2\<lparr> ee := EventEmitter_dispose ee' \<rparr>))"

subsection \<open>Reactions, timers and settlements\<close>

text \<open>
  The chain \<open>.then(...).catch(...).finally(...)\<close> on the promise of a job runs as three
  consecutive microtasks. \<open>then\<close> emits \<open>completed\<close> on fulfilment and passes a rejection
  on; \<open>catch\<close> converts the reason and emits \<open>failed\<close>; \<open>finally\<close> takes the job out
  of \<open>#executing\<close>. An exception thrown inside \<open>then\<close> reaches \<open>catch\<close> as its reason, one
  thrown inside \<open>catch\<close> ends as an unhandled rejection after \<open>finally\<close> has run.
\<close>

definition then_reaction :: "environment \<Rightarrow> Job \<Rightarrow> settlement \<Rightarrow> EventLoop \<Rightarrow> EventLoop" where
  "then_reaction env job out s =
     (case out of
        Resolves result \<Rightarrow>
          (case emit_event env ''completed'' (CompletedEvent job result) s of
             (None, s1) \<Rightarrow> schedule (CatchReaction job (Resolves JUndefined)) s1
           | (Some x, s1) \<Rightarrow> schedule (CatchReaction job (Rejects x)) s1)
      | Rejects err \<Rightarrow> schedule (CatchReaction job (Rejects err)) s)"

definition catch_reaction :: "environment \<Rightarrow> Job \<Rightarrow> settlement \<Rightarrow> EventLoop \<Rightarrow> EventLoop" where
  "catch_reaction env job out s =
     (case out of
        Resolves v \<Rightarrow> schedule (FinallyReaction job) s
      | Rejects err \<Rightarrow>
          (case normalize_error env err of
             Inl thrown \<Rightarrow> schedule (FinallyReaction job) (s\<lparr> unhandled := unhandled s @ [thrown] \<rparr>)
           | Inr error \<Rightarrow>
               (case emit_event env ''failed'' (FailedEvent job error) s of
                  (None, s1) \<Rightarrow> schedule (FinallyReaction job) s1
                | (Some x, s1) \<Rightarrow>
                    schedule (FinallyReaction job) (s1\<lparr> unhandled := unhandled s1 @ [x] \<rparr>))))"

definition finally_reaction :: "Job \<Rightarrow> EventLoop \<Rightarrow> EventLoop" where
  "finally_reaction job s =
     (let index = findIndex (\<lambda>j. jobId j = jobId job) (executing s)
      in if index > -1 then s\<lparr> executing := snd (splice1 index (executing s)) \<rparr> else s)"

fun run_task :: "environment \<Rightarrow> task \<Rightarrow> EventLoop \<Rightarrow> EventLoop" where
  "run_task env Execute s = execute s"
| "run_task env (ProcessJob job) s = processJob env job s"
| "run_task env (ThenReaction job out) s = then_reaction env job out s"
| "run_task env (CatchReaction job out) s = catch_reaction env job out s"
| "run_task env (FinallyReaction job) s = finally_reaction job s"

text \<open>
  The promise returned by the processing function for a job settles: for a job with a
  race the settlement counts only while the race is undecided.
\<close>

definition processor_settles :: "Job \<Rightarrow> settlement \<Rightarrow> EventLoop \<Rightarrow> EventLoop" where
  "processor_settles job out s =
     (if job \<in> set (running s) then
        (let s1 = s\<lparr> running := remove1 job (running s) \<rparr>
         in if positive (timeout (options job)) then
              (if job \<in> set (races s1)
               then schedule (ThenReaction job out) (s1\<lparr> races := remove1 job (races s1) \<rparr>)
               else s1)
            else schedule (ThenReaction job out) s1)
      else s)"

text \<open>
  The callback of the timeout timer of a job:
  \<^verbatim>\<open>ac.abort(new Error(...)); reject(new Error(...));\<close>
  \<open>abort\<close> runs the listeners of the signal before it returns. A processing function
  that settles its promise in such a listener settles it before \<open>reject\<close> is reached, and
  so decides the race; \<open>in_listener\<close> is that settlement, \<open>None\<close> when there is none.
\<close>

definition timeout_fires :: "environment \<Rightarrow> Job \<Rightarrow> settlement option \<Rightarrow> EventLoop \<Rightarrow> EventLoop" where
  "timeout_fires env job in_listener s =
     (let s1 = s\<lparr> timers := remove1 (TimeoutTimer job) (timers s),
                  aborted := aborted s @ [job] \<rparr>;
          s2 = (case in_listener of
                  None \<Rightarrow> s1
                | Some out \<Rightarrow> processor_settles job out s1)
      in if job \<in> set (races s2)
         then schedule
                (ThenReaction job
                   (Rejects (timeout_error env
                      (case timeout (options job) of Some t \<Rightarrow> t | None \<Rightarrow> 0))))
                (s2\<lparr> races := remove1 job (races s2) \<rparr>)
         else s2)"

text \<open>
  The events of the runtime. \<open>Tick\<close> runs the oldest microtask. \<open>TimerFires\<close>: a pending
  timer fires; a delay timer schedules \<open>processJob\<close>, a timeout timer runs the callback
  above, with the settlement the processing function makes in a listener of the abort
  signal, if it makes one. \<open>ProcessorSettles\<close>: the promise returned by the processing
  function for a job settles in a turn of its own. An event that is not enabled changes
  nothing.
\<close>

datatype loop_event =
    Tick
  | TimerFires timer "settlement option"
  | ProcessorSettles Job settlement

fun loop_step :: "environment \<Rightarrow> EventLoop \<Rightarrow> loop_event \<Rightarrow> EventLoop" where
  "loop_step env s Tick =
     (case microtasks s of
        [] \<Rightarrow> s
      | t # rest \<Rightarrow> run_task env t (s\<lparr> microtasks := rest \<rparr>))"
| "loop_step env s (TimerFires (DelayTimer job) in_listener) =
     (if DelayTimer job \<in> set (timers s)
      then schedule (ProcessJob job) (s\<lparr> timers := remove1 (DelayTimer job) (timers s) \<rparr>)
      else s)"
| "loop_step env s (TimerFires (TimeoutTimer job) in_listener) =
     (if TimeoutTimer job \<in> set (timers s) then timeout_fires env job in_listener s else s)"
| "loop_step env s (ProcessorSettles job out) = processor_settles job out s"

definition loop_run :: "environment \<Rightarrow> EventLoop \<Rightarrow> loop_event list \<Rightarrow> EventLoop" where
  "loop_run env s evs = foldl (loop_step env) s evs"


text \<open>\<open>addEventListener(event, listener, thisArgs, options)\<close> subscribes to the emitter.\<close>

definition addEventListener ::
  "string \<Rightarrow> nat \<Rightarrow> string \<Rightarrow> string \<Rightarrow> bool \<Rightarrow> EventLoop \<Rightarrow> jsval option \<times> EventLoop" where
  "addEventListener event l sig sid once_option s =
     (case subscribe event l sig sid once_option (ee s) of
        Inl e \<Rightarrow> (Some e, s)
      | Inr ee' \<Rightarrow> (None, s\<lparr> ee := ee' \<rparr>))"

section \<open>Example inputs\<close>

text \<open>
  Three work items of which the second rejects, run two at a time; the schedule lets
  the second item finish first.
\<close>

definition three_callbacks :: "worker list" where
  "three_callbacks =
     [Returns (Resolves (JNum 1)), Returns (Rejects (JStr ''no'')), Returns (Resolves (JNum 3))]"

definition three_schedule :: "runner_event list" where
  "three_schedule = [Settle 1, Immediate, Settle 2, Settle 0, Immediate, Immediate]"

text \<open>A single work item that throws instead of returning a promise.\<close>

definition throwing_callbacks :: "worker list" where
  "throwing_callbacks = [Throws (JStr ''boom'')]"

text \<open>
  Four work items of which the third throws, run two at a time: the third is started
  by a \<open>next\<close> that \<open>EventLoop.immediate\<close> scheduled.
\<close>

definition four_callbacks :: "worker list" where
  "four_callbacks =
     [Returns (Resolves (JNum 1)), Returns (Resolves (JNum 2)), Throws (JStr ''boom''),
      Returns (Resolves (JNum 4))]"

definition four_schedule :: "runner_event list" where
  "four_schedule = [Settle 0, Immediate, Settle 1, Immediate, Settle 3, Immediate]"

text \<open>
  \<open>mapPromises\<close> with a callback that rejects on 0 and throws on a negative number.
\<close>

definition two_args :: "real list" where
  "two_args = [7, 0]"

definition four_args :: "real list" where
  "four_args = [7, 6, -1, 3]"

definition reciprocal :: "real \<Rightarrow> worker" where
  "reciprocal a =
     (if a = 0 then Returns (Rejects (JStr ''zero''))
      else if a < 0 then Throws (JStr ''negative'')
      else Returns (Resolves (JNum (42 / a))))"

definition two_schedule :: "runner_event list" where
  "two_schedule = [Settle 0, Immediate, Settle 1]"

text \<open>
  An environment in which no callback throws: \<open>isPlainObject\<close> holds of the objects
  whose prototype is \<open>Object.prototype\<close>, a number is printed by its decimal digits
  (right for the whole numbers below \<open>10^21\<close>), and an object converts to
  \<open>[object Object]\<close>.
\<close>

fun plain_by_class :: "jsval \<Rightarrow> bool" where
  "plain_by_class (JObject PlainObject m) = True"
| "plain_by_class v = False"

function decimal :: "nat \<Rightarrow> string" where
  "decimal n =
     (if n < 10 then [''0123456789'' ! n]
      else decimal (n div 10) @ [''0123456789'' ! (n mod 10)])"
  by pat_completeness auto
termination
  by (relation "measure (\<lambda>n. n)") auto

declare decimal.simps [simp del]

definition example_env :: environment where
  "example_env =
     \<lparr> isPlainObject = plain_by_class,
       numberToString = (\<lambda>x. decimal (nat \<lfloor>x\<rfloor>)),
       objectToString = (\<lambda>v. Inr ''[object Object]''),
       listenerThrows = (\<lambda>l. None),
       processorThrows = (\<lambda>fn job. None) \<rparr>"

text \<open>Two listeners subscribed to the event \<open>tick\<close>, in this order.\<close>

definition two_listeners :: EventEmitter where
  "two_listeners =
     \<lparr> ee_size = 2, ee_disposed = False,
       ee_listeners =
         [''tick'' \<mapsto>
            [\<lparr> listener = 1, listenerSignature = ''sigA'', subscriptionId = ''a'',
                once = False, calls = 0, isDisposed = False, eventName = ''tick'' \<rparr>,
             \<lparr> listener = 2, listenerSignature = ''sigB'', subscriptionId = ''b'',
                once = False, calls = 0, isDisposed = False, eventName = ''tick'' \<rparr>]],
       ee_onListenerError = None \<rparr>"

text \<open>
  Jobs without options, and a scheduler on which \<open>start\<close> and then two \<open>add\<close> calls
  were made in one synchronous block.
\<close>

definition no_options :: JobOptions where
  "no_options = \<lparr> timeout = None, delay = None \<rparr>"

definition job_a :: Job where
  "job_a = \<lparr> data = JStr ''a'', jobId = ''id-a'', queuedAt = 0, messageType = None,
             options = no_options \<rparr>"

definition job_b :: Job where
  "job_b = \<lparr> data = JStr ''b'', jobId = ''id-b'', queuedAt = 0, messageType = None,
             options = no_options \<rparr>"

definition two_jobs_added :: EventLoop where
  "two_jobs_added =
     snd (add (JStr ''b'') None no_options ''id-b'' 0
       (snd (add (JStr ''a'') None no_options ''id-a'' 0
         (snd (start example_env 1 EventLoop_new)))))"

text \<open>A scheduler right after \<open>start\<close>.\<close>

definition started_loop :: EventLoop where
  "started_loop = snd (start example_env 1 EventLoop_new)"





text \<open>
  An environment in which every listener throws \<open>null\<close>, and a started scheduler with
  one listener of \<open>completed\<close> and one job added.
\<close>

definition null_listener_env :: environment where
  "null_listener_env = example_env\<lparr> listenerThrows := (\<lambda>l. Some JNull) \<rparr>"

definition listening_loop :: EventLoop where
  "listening_loop =
     snd (add (JStr ''a'') None no_options ''id-a'' 0
       (snd (addEventListener ''completed'' 1 ''sigA'' ''a'' False started_loop)))"

text \<open>
  An environment whose \<open>isPlainObject\<close> looks at the type alone and so accepts \<open>null\<close>.
\<close>

definition typeof_env :: environment where
  "typeof_env = example_env\<lparr> isPlainObject := (\<lambda>v. typeof v = ''object'') \<rparr>"

section \<open>Properties of the ordered queue\<close>

text \<open>
  C1. The claim: \<open>size()\<close> is the number of items pushed minus the number of successful
  pops, and a \<open>pop()\<close> on a non-empty queue removes exactly one item. On the code it
  fails: three numbers pushed on a FIFO queue, then one \<open>pop()\<close>; the pop returns the
  first number and the queue that remains holds one item, not two. After the item is
  spliced out, \<open>indexOf\<close> does not find it and returns \<open>-1\<close>, and \<open>splice(-1, 1)\<close>
  removes the last item of the queue as well.
\<close>

theorem C1_pop_removes_two_items:
  "pop truthy (push [JNum 3] (push [JNum 2] (push [JNum 1] (Stack_new (Some (OrderName ''fifo''))))))
     = (Some (JNum 1), \<lparr> order = FIFO, items = [JNum 2] \<rparr>)
   \<and> size_stack (snd (pop truthy
        (push [JNum 3] (push [JNum 2] (push [JNum 1] (Stack_new (Some (OrderName ''fifo''))))))))
     = 1"
  by (simp add: pop_def push_def Stack_new_def splice1_def indexOf_def size_stack_def)

section \<open>Properties of the event emitter\<close>

text \<open>
  C3. The claim: one \<open>emit\<close> calls every subscription of the event that is neither
  disposed nor exhausted exactly once, in registration order. On the code it fails:
  with two listeners subscribed to the same event, neither \<open>once\<close> nor disposed and
  neither throwing, one \<open>emit\<close> returns normally having called the first listener twice
  and the second never. The loop moves the subscription it has just called to the back
  of the list it is iterating, so the next index holds the same subscription again.
\<close>

theorem C3_emit_skips_second_listener:
  "and_then (subscribe ''tick'' 1 ''sigA'' ''a'' False EventEmitter_new)
            (subscribe ''tick'' 2 ''sigB'' ''b'' False)
     = Inr two_listeners
   \<and> fst (emit example_env ''tick'' two_listeners) = None
   \<and> fst (snd (emit example_env ''tick'' two_listeners)) = Some [''a'', ''a'']"
  by (simp add: and_then_def subscribe_def EventEmitter_new_def two_listeners_def emit_def
        emit_loop.simps call_listener_def example_env_def requeue_def splice1_def Let_def)

section \<open>Properties of the bounded concurrency runner\<close>

subsection \<open>The invariant is kept\<close>

lemma length_array_set: "length (array_set xs i v) = max (length xs) (Suc i)"
  by (auto simp: array_set_def)

lemma nth_array_set_same: "array_set xs i v ! i = Some v"
  by (auto simp: array_set_def nth_append)

lemma nth_array_set_other: "j \<noteq> i \<Longrightarrow> j < length xs \<Longrightarrow> array_set xs i v ! j = xs ! j"
  by (auto simp: array_set_def nth_append)

lemma nth_array_set_hole: "length xs \<le> j \<Longrightarrow> j < i \<Longrightarrow> array_set xs i v ! j = None"
  by (auto simp: array_set_def nth_append)

lemma length_filter_remove_key:
  "distinct (map fst xs) \<Longrightarrow> (i, out) \<in> set xs
     \<Longrightarrow> Suc (length (filter (\<lambda>p. fst p \<noteq> i) xs)) = length xs"
proof (induction xs)
  case Nil
  then show ?case by simp
next
  case (Cons x xs)
  show ?case
  proof (cases "fst x = i")
    case True
    with Cons.prems have "i \<notin> fst ` set xs" by auto
    then have "filter (\<lambda>p. fst p \<noteq> i) xs = xs"
      by (auto simp: filter_id_conv)
    with True show ?thesis by simp
  next
    case False
    with Cons show ?thesis by auto
  qed
qed

lemma started_ok_Suc:
  "started_ok start_item (Suc k)
     = started_ok start_item k + (if returns (start_item k) then 1 else 0)"
  by (simp add: started_ok_def)

lemma started_ok_le: "started_ok start_item k \<le> k"
proof -
  have "length (filter (\<lambda>i. returns (start_item i)) [0..<k]) \<le> length [0..<k]"
    by (rule length_filter_le)
  then show ?thesis by (simp add: started_ok_def)
qed

lemma started_ok_all: "(started_ok start_item k = k) = (\<forall>i < k. returns (start_item i))"
proof (induction k)
  case 0
  show ?case by (simp add: started_ok_def)
next
  case (Suc k)
  have le: "started_ok start_item k \<le> k" by (rule started_ok_le)
  show ?case
  proof (cases "returns (start_item k)")
    case True
    with Suc show ?thesis by (auto simp: started_ok_Suc less_Suc_eq)
  next
    case False
    with le show ?thesis by (auto simp: started_ok_Suc)
  qed
qed

lemma runner_inv_init: "runner_inv n start_item Runner_init"
  by (simp add: runner_inv_def Runner_init_def Deferred_new_def started_ok_def)

lemma runner_inv_next:
  assumes "runner_inv n start_item r"
  shows "runner_inv n start_item (snd (next_item n start_item r))"
proof (cases "cursor r < n")
  case True
  show ?thesis
  proof (cases "start_item (cursor r)")
    case (Returns p)
    with True assms show ?thesis
      by (auto simp: runner_inv_def next_item_def less_Suc_eq started_ok_Suc)
  next
    case (Throws e)
    with True assms show ?thesis
      by (auto simp: runner_inv_def next_item_def less_Suc_eq started_ok_Suc)
  qed
next
  case False
  with assms show ?thesis
    by (auto simp: runner_inv_def next_item_def Deferred_resolve_def split: PromiseState.splits)
qed

lemma runner_inv_immediates:
  "runner_inv n start_item (r\<lparr> immediates := k \<rparr>) = runner_inv n start_item r"
  by (simp add: runner_inv_def)

lemma runner_inv_uncaught:
  "runner_inv n start_item (r\<lparr> uncaught := k \<rparr>) = runner_inv n start_item r"
  by (simp add: runner_inv_def)

lemma runner_inv_settle:
  assumes inv: "runner_inv n start_item r" and m: "map_of (inflight r) index = Some out"
  shows "runner_inv n start_item (runner_step n start_item r (Settle index))"
proof -
  define r' where "r' = runner_step n start_item r (Settle index)"
  have r': "cursor r' = cursor r" "settled r' = Suc (settled r)"
    "inflight r' = filter (\<lambda>p. fst p \<noteq> index) (inflight r)"
    "results r' = array_set (results r) index (to_result out)"
    "deferred r' = deferred r"
    using m by (simp_all add: r'_def)
  from m have mem: "(index, out) \<in> set (inflight r)" by (rule map_of_SomeD)
  from inv have dist: "distinct (map fst (inflight r))" by (simp add: runner_inv_def)
  from inv mem have idx: "index < cursor r" and out: "start_item index = Returns out"
    by (auto simp: runner_inv_def)
  have len: "Suc (length (inflight r')) = length (inflight r)"
    unfolding r'(3) using dist mem by (rule length_filter_remove_key)
  have fst_set: "fst ` set (inflight r') = fst ` set (inflight r) - {index}"
    unfolding r'(3) by auto
  from inv have bounds: "cursor r \<le> n" "length (results r) \<le> cursor r"
    "settled r + length (inflight r) = started_ok start_item (cursor r)"
    by (simp_all add: runner_inv_def)
  have "started_ok start_item (cursor r) \<le> cursor r" by (rule started_ok_le)
  with bounds len have pending: "settled r < n" by linarith
  have unresolved: "promise (deferred r) = Pending"
  proof (cases "promise (deferred r)")
    case Pending then show ?thesis .
  next
    case (FulfilledWith rs)
    with inv have "settled r = n" by (simp add: runner_inv_def)
    with pending show ?thesis by simp
  next
    case (RejectedWith e)
    with inv show ?thesis by (simp add: runner_inv_def)
  qed
  have c1: "cursor r' \<le> n" using bounds by (simp add: r')
  have c2: "distinct (map fst (inflight r'))"
    unfolding r'(3) using dist by (simp add: distinct_map_filter)
  have c3: "\<forall>p \<in> set (inflight r'). fst p < cursor r' \<and> start_item (fst p) = Returns (snd p)"
    using inv by (auto simp: r' runner_inv_def)
  have c4: "settled r' + length (inflight r') = started_ok start_item (cursor r')"
    using bounds len by (simp add: r'(1,2))
  have c5: "length (results r') \<le> cursor r'"
    using bounds idx by (simp add: r'(1,4) length_array_set)
  have c6: "\<forall>i < cursor r'. i \<notin> fst ` set (inflight r')
        \<longrightarrow> (\<forall>p. start_item i = Returns p
              \<longrightarrow> i < length (results r') \<and> results r' ! i = Some (to_result p))"
  proof (intro allI impI)
    fix i p assume i: "i < cursor r'" "i \<notin> fst ` set (inflight r')"
      and p: "start_item i = Returns p"
    show "i < length (results r') \<and> results r' ! i = Some (to_result p)"
    proof (cases "i = index")
      case True
      with p out have "p = out" by simp
      with True show ?thesis by (simp add: r'(4) length_array_set nth_array_set_same)
    next
      case False
      with i have "i \<notin> fst ` set (inflight r)" "i < cursor r" by (simp_all add: fst_set r'(1))
      with inv p have "i < length (results r) \<and> results r ! i = Some (to_result p)"
        by (simp add: runner_inv_def)
      with False show ?thesis by (auto simp: r'(4) length_array_set nth_array_set_other)
    qed
  qed
  have c7: "\<forall>i < length (results r'). \<not> returns (start_item i) \<longrightarrow> results r' ! i = None"
  proof (intro allI impI)
    fix i assume i: "i < length (results r')" and t: "\<not> returns (start_item i)"
    from t out have ne: "i \<noteq> index" by auto
    show "results r' ! i = None"
    proof (cases "i < length (results r)")
      case True
      with inv t have "results r ! i = None" by (simp add: runner_inv_def)
      with ne True show ?thesis by (simp add: r'(4) nth_array_set_other)
    next
      case False
      with i ne have "length (results r) \<le> i" "i < index"
        by (auto simp: r'(4) length_array_set)
      then show ?thesis by (simp add: r'(4) nth_array_set_hole)
    qed
  qed
  have c8: "\<forall>e. promise (deferred r') \<noteq> RejectedWith e"
    using unresolved by (simp add: r'(5))
  have c9: "\<forall>rs. promise (deferred r') = FulfilledWith rs \<longrightarrow> settled r' = n \<and> rs = results r'"
    using unresolved by (simp add: r'(5))
  from c1 c2 c3 c4 c5 c6 c7 c8 c9 show ?thesis
    unfolding runner_inv_def r'_def by blast
qed

lemma runner_inv_step:
  assumes "runner_inv n start_item r"
  shows "runner_inv n start_item (runner_step n start_item r e)"
proof (cases e)
  case (Settle index)
  show ?thesis
  proof (cases "map_of (inflight r) index")
    case None
    with assms Settle show ?thesis by simp
  next
    case (Some out)
    show ?thesis unfolding Settle using assms Some by (rule runner_inv_settle)
  qed
next
  case Immediate
  show ?thesis
  proof (cases "immediates r = 0")
    case True
    with assms Immediate show ?thesis by simp
  next
    case False
    from assms have "runner_inv n start_item (r\<lparr>immediates := immediates r - 1\<rparr>)"
      by (simp add: runner_inv_immediates)
    then have "runner_inv n start_item
                 (snd (next_item n start_item (r\<lparr>immediates := immediates r - 1\<rparr>)))"
      by (rule runner_inv_next)
    with False Immediate show ?thesis
      by (auto simp: runner_inv_uncaught split: prod.splits option.splits)
  qed
qed

lemma runner_inv_launch:
  "runner_inv n start_item r
     \<Longrightarrow> runner_inv n start_item (snd (launch c (next_item n start_item) r))"
proof (induction c "next_item n start_item" r rule: launch.induct)
  case (1 concurrency r)
  then show ?case
    by (subst launch.simps) (simp add: runner_inv_next)
qed

lemma runner_inv_run:
  "runner_inv n start_item r \<Longrightarrow> runner_inv n start_item (foldl (runner_step n start_item) r sched)"
  by (induction sched arbitrary: r) (simp_all add: runner_inv_step)

subsection \<open>The number of items in flight\<close>

lemma load_next: "runner_load (snd (next_item n start_item r)) \<le> Suc (runner_load r)"
  by (simp add: runner_load_def next_item_def split: worker.splits)

lemma load_launch:
  "runner_load (snd (launch c (next_item n start_item) r)) \<le> runner_load r + nat c"
proof (induction c "next_item n start_item" r rule: launch.induct)
  case (1 concurrency r)
  show ?case
  proof (cases "concurrency - 1 \<ge> 0")
    case True
    have step: "runner_load (snd (next_item n start_item r)) \<le> Suc (runner_load r)"
      by (rule load_next)
    show ?thesis
    proof (cases "fst (next_item n start_item r) \<noteq> None")
      case thrown: True
      with True step show ?thesis by (subst launch.simps) simp
    next
      case False
      with True 1 have
        "runner_load (snd (launch (concurrency - 1) (next_item n start_item)
                             (snd (next_item n start_item r))))
           \<le> runner_load (snd (next_item n start_item r)) + nat (concurrency - 1)"
        by simp
      also have "\<dots> \<le> Suc (runner_load r) + nat (concurrency - 1)"
        using step by simp
      also from True have "\<dots> = runner_load r + nat concurrency" by simp
      finally show ?thesis using True False by (subst launch.simps) simp
    qed
  next
    case False
    then show ?thesis by (subst launch.simps) simp
  qed
qed

lemma load_step: "runner_load (runner_step n start_item r e) \<le> runner_load r"
proof (cases e)
  case (Settle index)
  show ?thesis
  proof (cases "map_of (inflight r) index")
    case None
    with Settle show ?thesis by simp
  next
    case (Some out)
    then have "(index, out) \<in> set (inflight r)" by (rule map_of_SomeD)
    then have "length (filter (\<lambda>p. fst p \<noteq> index) (inflight r)) < length (inflight r)"
      by (intro length_filter_less[where x = "(index, out)"]) simp_all
    with Settle Some show ?thesis by (simp add: runner_load_def)
  qed
next
  case Immediate
  show ?thesis
  proof (cases "immediates r = 0")
    case True
    with Immediate show ?thesis by simp
  next
    case False
    have "runner_load (snd (next_item n start_item (r\<lparr>immediates := immediates r - 1\<rparr>)))
            \<le> Suc (runner_load (r\<lparr>immediates := immediates r - 1\<rparr>))"
      by (rule load_next)
    with False Immediate show ?thesis
      by (auto simp: runner_load_def split: prod.splits option.splits)
  qed
qed

lemma load_run: "runner_load (foldl (runner_step n start_item) r sched) \<le> runner_load r"
proof (induction sched arbitrary: r)
  case Nil
  show ?case by simp
next
  case (Cons e sched)
  have "runner_load (foldl (runner_step n start_item) (runner_step n start_item r e) sched)
          \<le> runner_load (runner_step n start_item r e)"
    by (rule Cons.IH)
  also have "\<dots> \<le> runner_load r" by (rule load_step)
  finally show ?case by simp
qed

subsection \<open>A run that has come to rest has settled its promise\<close>

lemma next_returns:
  assumes "\<forall>i < n. returns (start_item i)"
  shows "fst (next_item n start_item r) = None"
proof (cases "cursor r < n")
  case True
  with assms have "returns (start_item (cursor r))" by simp
  with True show ?thesis
    by (cases "start_item (cursor r)") (simp_all add: next_item_def)
next
  case False
  then show ?thesis by (simp add: next_item_def)
qed

lemma live_next:
  assumes "runner_inv n start_item r" and all: "\<forall>i < n. returns (start_item i)"
  shows "runner_live (snd (next_item n start_item r))"
proof (cases "cursor r < n")
  case True
  with all have "returns (start_item (cursor r))" by simp
  with True show ?thesis
    by (cases "start_item (cursor r)") (simp_all add: runner_live_def next_item_def)
next
  case False
  show ?thesis
  proof (cases "settled r = n")
    case True
    with False show ?thesis
      by (simp add: runner_live_def next_item_def Deferred_resolve_def split: PromiseState.splits)
  next
    case settled: False
    from assms(1) False have c: "cursor r = n"
      and s: "settled r + length (inflight r) = started_ok start_item (cursor r)"
      by (simp_all add: runner_inv_def)
    from all have "started_ok start_item n = n" by (simp add: started_ok_all)
    with c s have "settled r + length (inflight r) = n" by simp
    with settled have "inflight r \<noteq> []" by auto
    with False settled show ?thesis by (simp add: runner_live_def next_item_def)
  qed
qed

lemma live_step:
  assumes "runner_inv n start_item r" and "\<forall>i < n. returns (start_item i)" and "runner_live r"
  shows "runner_live (runner_step n start_item r e)"
proof (cases e)
  case (Settle index)
  with assms(3) show ?thesis
    by (cases "map_of (inflight r) index") (simp_all add: runner_live_def)
next
  case Immediate
  show ?thesis
  proof (cases "immediates r = 0")
    case True
    with Immediate assms(3) show ?thesis by simp
  next
    case False
    from assms(1) have "runner_inv n start_item (r\<lparr>immediates := immediates r - 1\<rparr>)"
      by (simp add: runner_inv_immediates)
    then have "runner_live (snd (next_item n start_item (r\<lparr>immediates := immediates r - 1\<rparr>)))"
      using assms(2) by (rule live_next)
    moreover have "fst (next_item n start_item (r\<lparr>immediates := immediates r - 1\<rparr>)) = None"
      using assms(2) by (rule next_returns)
    ultimately show ?thesis using False Immediate
      by (auto split: prod.splits option.splits)
  qed
qed

lemma live_run:
  "runner_inv n start_item r \<Longrightarrow> \<forall>i < n. returns (start_item i) \<Longrightarrow> runner_live r
     \<Longrightarrow> runner_live (foldl (runner_step n start_item) r sched)"
  by (induction sched arbitrary: r) (simp_all add: live_step runner_inv_step)

lemma launch_returns:
  assumes "\<forall>i < n. returns (start_item i)"
  shows "fst (launch c (next_item n start_item) r) = None"
proof (induction c "next_item n start_item" r rule: launch.induct)
  case (1 concurrency r)
  have "fst (next_item n start_item r) = None" using assms by (rule next_returns)
  with 1 show ?case by (subst launch.simps) simp
qed

lemma live_launch_more:
  "runner_inv n start_item r \<Longrightarrow> \<forall>i < n. returns (start_item i) \<Longrightarrow> runner_live r
     \<Longrightarrow> runner_live (snd (launch c (next_item n start_item) r))"
proof (induction c "next_item n start_item" r rule: launch.induct)
  case (1 concurrency r)
  have "fst (next_item n start_item r) = None" using 1(3) by (rule next_returns)
  with 1 show ?case
    by (subst launch.simps) (simp add: runner_inv_next live_next)
qed

lemma live_launch:
  assumes "runner_inv n start_item r" and all: "\<forall>i < n. returns (start_item i)" and "1 \<le> c"
  shows "runner_live (snd (launch c (next_item n start_item) r))"
proof -
  have "fst (next_item n start_item r) = None" using all by (rule next_returns)
  with assms(3) have "launch c (next_item n start_item) r
      = launch (c - 1) (next_item n start_item) (snd (next_item n start_item r))"
    by (subst launch.simps) simp
  moreover have "runner_live (snd (launch (c - 1) (next_item n start_item)
                                     (snd (next_item n start_item r))))"
    using assms(1) all by (intro live_launch_more runner_inv_next live_next)
  ultimately show ?thesis by simp
qed

subsection \<open>Consequences\<close>

lemma inv_all_settled:
  assumes "runner_inv n start_item r" and "settled r = n"
  shows "cursor r = n \<and> inflight r = [] \<and> (\<forall>i < n. returns (start_item i))"
proof -
  from assms have b: "cursor r \<le> n"
    "settled r + length (inflight r) = started_ok start_item (cursor r)"
    by (simp_all add: runner_inv_def)
  have le: "started_ok start_item (cursor r) \<le> cursor r" by (rule started_ok_le)
  with b assms(2) have "length (inflight r) = 0" and c: "cursor r = n"
    by linarith+
  moreover from b assms(2) le c have "started_ok start_item n = n" by simp
  ultimately show ?thesis by (simp add: started_ok_all)
qed

lemma inv_resolved_results:
  assumes "runner_inv n start_item r" and "settled r = n"
  shows "results r = map (\<lambda>i. entry (start_item i)) [0..<n]"
proof -
  from assms have c: "cursor r = n" and e: "inflight r = []"
    and all: "\<forall>i < n. returns (start_item i)"
    by (simp_all add: inv_all_settled)
  from assms(1) c have "length (results r) \<le> n"
    and inv6: "\<forall>i < n. i \<notin> fst ` set (inflight r)
           \<longrightarrow> (\<forall>p. start_item i = Returns p
                 \<longrightarrow> i < length (results r) \<and> results r ! i = Some (to_result p))"
    by (simp_all add: runner_inv_def)
  have nth: "i < length (results r) \<and> results r ! i = entry (start_item i)" if "i < n" for i
  proof -
    from all that have "returns (start_item i)" by simp
    then obtain p where p: "start_item i = Returns p" by (cases "start_item i") simp_all
    with inv6 e that show ?thesis by simp
  qed
  have len: "length (results r) = n"
  proof (rule antisym)
    show "length (results r) \<le> n" by fact
    show "n \<le> length (results r)"
    proof (cases n)
      case 0 then show ?thesis by simp
    next
      case (Suc k)
      with nth[of k] have "k < length (results r)" by simp
      with Suc show ?thesis by simp
    qed
  qed
  show ?thesis
    by (rule nth_equalityI) (simp_all add: len nth)
qed

lemma map_entry_nth: "map (\<lambda>i. entry (xs ! i)) [0..<length xs] = map entry xs"
  by (rule nth_equalityI) simp_all

lemma launch_nonpositive: "c \<le> 0 \<Longrightarrow> launch c nxt r = (None, r)"
  by (subst launch.simps) simp

lemma step_init: "runner_step n start_item Runner_init e = Runner_init"
  by (cases e) (simp_all add: Runner_init_def)

lemma run_init: "foldl (runner_step n start_item) Runner_init sched = Runner_init"
  by (induction sched) (simp_all add: step_init)

lemma run_facts:
  fixes n start_item c sched
  defines "r \<equiv> foldl (runner_step n start_item)
                   (snd (launch c (next_item n start_item) Runner_init)) sched"
  shows run_inv: "runner_inv n start_item r"
    and run_load: "length (inflight r) \<le> nat c"
    and run_live: "1 \<le> c \<Longrightarrow> \<forall>i < n. returns (start_item i) \<Longrightarrow> runner_live r"
proof -
  have i0: "runner_inv n start_item (snd (launch c (next_item n start_item) Runner_init))"
    by (intro runner_inv_launch runner_inv_init)
  then show "runner_inv n start_item r"
    unfolding r_def by (rule runner_inv_run)
  have "runner_load r \<le> runner_load (snd (launch c (next_item n start_item) Runner_init))"
    unfolding r_def by (rule load_run)
  also have "\<dots> \<le> runner_load Runner_init + nat c" by (rule load_launch)
  finally show "length (inflight r) \<le> nat c"
    by (simp add: runner_load_def Runner_init_def)
  show "runner_live r" if "1 \<le> c" and all: "\<forall>i < n. returns (start_item i)"
    unfolding r_def using i0 all live_launch[OF runner_inv_init all that(1)] by (rule live_run)
qed

text \<open>An exception of a work item started by the entry point itself reaches the caller.\<close>

lemma launch_throws:
  assumes "cursor r \<le> index" and "index < n" and "start_item index = Throws thrown"
    and "\<forall>i. cursor r \<le> i \<and> i < index \<longrightarrow> returns (start_item i)"
    and "int (index - cursor r) < c"
  shows "fst (launch c (next_item n start_item) r) = Some thrown"
  using assms
proof (induction "index - cursor r" arbitrary: r c)
  case 0
  then have c: "cursor r = index" by simp
  with 0 have "next_item n start_item r = (Some thrown, r\<lparr> cursor := cursor r + 1 \<rparr>)"
    by (simp add: next_item_def)
  with 0 show ?case by (subst launch.simps) simp
next
  case (Suc d)
  then have lt: "cursor r < index" by simp
  with Suc.prems have "returns (start_item (cursor r))" by simp
  then obtain p where p: "start_item (cursor r) = Returns p"
    by (cases "start_item (cursor r)") simp_all
  define r' where "r' = r\<lparr> cursor := cursor r + 1, inflight := inflight r @ [(cursor r, p)] \<rparr>"
  from lt Suc.prems p have nx: "next_item n start_item r = (None, r')"
    by (simp add: next_item_def r'_def)
  have c': "cursor r' = Suc (cursor r)" by (simp add: r'_def)
  have "fst (launch (c - 1) (next_item n start_item) r') = Some thrown"
  proof (rule Suc.hyps(1))
    show "d = index - cursor r'" using Suc.hyps(2) c' by simp
    show "cursor r' \<le> index" using lt c' by simp
    show "index < n" by fact
    show "start_item index = Throws thrown" by fact
    show "\<forall>i. cursor r' \<le> i \<and> i < index \<longrightarrow> returns (start_item i)"
      using Suc.prems(4) c' by simp
    show "int (index - cursor r') < c - 1" using Suc.prems(5) lt c' by simp
  qed
  moreover from Suc.prems(5) lt have "c - 1 \<ge> 0" by simp
  ultimately show ?case using nx by (subst launch.simps) simp
qed

lemma immediate_throws:
  assumes "immediates r \<noteq> 0" and "cursor r < n" and "start_item (cursor r) = Throws thrown"
  shows "uncaught (runner_step n start_item r Immediate) = uncaught r @ [thrown]"
  using assms by (simp add: next_item_def)

lemma settled_entry:
  assumes "runner_inv n start_item r" and "has_settled r index"
    and "start_item index = Returns p"
  shows "results r ! index = Some (to_result p)"
  using assms by (simp add: runner_inv_def has_settled_def)

lemma thrower_entry:
  assumes "runner_inv n start_item r" and "index < length (results r)"
    and "start_item index = Throws thrown"
  shows "results r ! index = None"
  using assms by (simp add: runner_inv_def)

lemma three_run:
  "promiseConcurrency_run three_callbacks 2 three_schedule
     = \<lparr> cursor = 3, settled = 3,
         results = [Some (Result_fulfilled (JNum 1)), Some (Result_rejected (JStr ''no'')),
                    Some (Result_fulfilled (JNum 3))],
         deferred = \<lparr> promise = FulfilledWith
                        [Some (Result_fulfilled (JNum 1)), Some (Result_rejected (JStr ''no'')),
                         Some (Result_fulfilled (JNum 3))],
                      outcome = Some (Resolved
                        [Some (Result_fulfilled (JNum 1)), Some (Result_rejected (JStr ''no'')),
                         Some (Result_fulfilled (JNum 3))]) \<rparr>,
         inflight = [], immediates = 0, uncaught = [] \<rparr>"
  by (simp add: promiseConcurrency_run_def promiseConcurrency_def three_callbacks_def
        three_schedule_def launch.simps next_item_def Runner_init_def Deferred_new_def
        Deferred_resolve_def array_set_def)

lemma two_run:
  "mapPromises_run two_args reciprocal 1 two_schedule
     = \<lparr> cursor = 2, settled = 2,
         results = [Some (Result_fulfilled (JNum 6)), Some (Result_rejected (JStr ''zero''))],
         deferred = Deferred_new, inflight = [], immediates = 1, uncaught = [] \<rparr>"
  by (simp add: mapPromises_run_def mapPromises_def two_args_def reciprocal_def
        two_schedule_def launch.simps next_item_def Runner_init_def array_set_def)

lemma four_run:
  "promiseConcurrency_run four_callbacks 2 four_schedule
     = \<lparr> cursor = 4, settled = 3,
         results = [Some (Result_fulfilled (JNum 1)), Some (Result_fulfilled (JNum 2)), None,
                    Some (Result_fulfilled (JNum 4))],
         deferred = Deferred_new, inflight = [], immediates = 0, uncaught = [JStr ''boom''] \<rparr>"
  by (simp add: promiseConcurrency_run_def promiseConcurrency_def four_callbacks_def
        four_schedule_def launch.simps next_item_def Runner_init_def array_set_def)

lemma four_args_run:
  "mapPromises_run four_args reciprocal 2 four_schedule
     = \<lparr> cursor = 4, settled = 3,
         results = [Some (Result_fulfilled (JNum 6)), Some (Result_fulfilled (JNum 7)), None,
                    Some (Result_fulfilled (JNum 14))],
         deferred = Deferred_new, inflight = [], immediates = 0, uncaught = [JStr ''negative''] \<rparr>"
  by (simp add: mapPromises_run_def mapPromises_def four_args_def reciprocal_def
        four_schedule_def launch.simps next_item_def Runner_init_def array_set_def)

lemma four_first_run:
  "promiseConcurrency_run four_callbacks 2 [Settle 0]
     = \<lparr> cursor = 2, settled = 1,
         results = [Some (Result_fulfilled (JNum 1))],
         deferred = Deferred_new, inflight = [(1, Resolves (JNum 2))], immediates = 1,
         uncaught = [] \<rparr>"
  by (simp add: promiseConcurrency_run_def promiseConcurrency_def four_callbacks_def
        launch.simps next_item_def Runner_init_def array_set_def)

subsection \<open>Failures of work items\<close>

text \<open>
  C5, as amended. Whatever the list, the worker function, the concurrency and the
  schedule, the promise returned by \<open>promiseConcurrency\<close> and by \<open>mapPromises\<close> is never
  rejected, and an item whose promise has settled with a rejection has the entry
  \<open>{ status: 'rejected', reason }\<close> at its index of the results array. A work item that
  throws before it has returned a promise is not recorded: its index of the results
  array stays empty. When it is the first to throw among the items that the entry point
  starts itself (its index is below the concurrency), the exception leaves
  \<open>promiseConcurrency\<close> or \<open>mapPromises\<close> and reaches the caller, who gets no promise at
  all; when it is started by a \<open>next\<close> that \<open>EventLoop.immediate\<close> scheduled, the
  exception is uncaught in that callback. With such an item in the list the promise of
  the call stays pending for ever.
\<close>

theorem C5_rejections_recorded_throws_escape:
  "promise (deferred (promiseConcurrency_run callbacks K sched)) \<noteq> RejectedWith e
   \<and> (has_settled (promiseConcurrency_run callbacks K sched) index
        \<and> callbacks ! index = Returns (Rejects reason)
      \<longrightarrow> results (promiseConcurrency_run callbacks K sched) ! index
            = Some (Result_rejected reason))
   \<and> (index < length (results (promiseConcurrency_run callbacks K sched))
        \<and> callbacks ! index = Throws thrown
      \<longrightarrow> results (promiseConcurrency_run callbacks K sched) ! index = None)
   \<and> (index < length callbacks \<and> int index < K \<and> callbacks ! index = Throws thrown
        \<and> (\<forall>i < index. returns (callbacks ! i))
      \<longrightarrow> fst (promiseConcurrency callbacks K) = Some thrown)
   \<and> promise (deferred (mapPromises_run args callback K' sched')) \<noteq> RejectedWith e
   \<and> (has_settled (mapPromises_run args callback K' sched') index
        \<and> callback (args ! index) = Returns (Rejects reason)
      \<longrightarrow> results (mapPromises_run args callback K' sched') ! index
            = Some (Result_rejected reason))
   \<and> (index < length (results (mapPromises_run args callback K' sched'))
        \<and> callback (args ! index) = Throws thrown
      \<longrightarrow> results (mapPromises_run args callback K' sched') ! index = None)
   \<and> (index < length args \<and> int index < K' \<and> callback (args ! index) = Throws thrown
        \<and> (\<forall>i < index. returns (callback (args ! i)))
      \<longrightarrow> fst (mapPromises args callback K') = Some thrown)
   \<and> (immediates r \<noteq> 0 \<and> cursor r < n \<and> start_item (cursor r) = Throws thrown
      \<longrightarrow> uncaught (runner_step n start_item r Immediate) = uncaught r @ [thrown])
   \<and> (index < length callbacks \<and> callbacks ! index = Throws thrown
      \<longrightarrow> promise (deferred (promiseConcurrency_run callbacks K sched)) = Pending)
   \<and> (index < length args \<and> callback (args ! index) = Throws thrown
      \<longrightarrow> promise (deferred (mapPromises_run args callback K' sched')) = Pending)"
proof -
  have pc: "runner_inv (length callbacks) (\<lambda>index. callbacks ! index)
              (promiseConcurrency_run callbacks K sched)"
    unfolding promiseConcurrency_run_def promiseConcurrency_def by (rule run_inv)
  have mp: "runner_inv (length args) (\<lambda>index. callback (args ! index))
              (mapPromises_run args callback K' sched')"
    unfolding mapPromises_run_def mapPromises_def by (rule run_inv)
  have a1: "promise (deferred (promiseConcurrency_run callbacks K sched)) \<noteq> RejectedWith e"
    using pc by (simp add: runner_inv_def)
  have a2: "promise (deferred (mapPromises_run args callback K' sched')) \<noteq> RejectedWith e"
    using mp by (simp add: runner_inv_def)
  have b1: "results (promiseConcurrency_run callbacks K sched) ! index
              = Some (Result_rejected reason)"
    if "has_settled (promiseConcurrency_run callbacks K sched) index"
      and "callbacks ! index = Returns (Rejects reason)"
    using settled_entry[OF pc that(1), of "Rejects reason"] that(2) by simp
  have b2: "results (mapPromises_run args callback K' sched') ! index
              = Some (Result_rejected reason)"
    if "has_settled (mapPromises_run args callback K' sched') index"
      and "callback (args ! index) = Returns (Rejects reason)"
    using settled_entry[OF mp that(1), of "Rejects reason"] that(2) by simp
  have c1: "results (promiseConcurrency_run callbacks K sched) ! index = None"
    if "index < length (results (promiseConcurrency_run callbacks K sched))"
      and "callbacks ! index = Throws thrown"
    using thrower_entry[OF pc that(1)] that(2) by simp
  have c2: "results (mapPromises_run args callback K' sched') ! index = None"
    if "index < length (results (mapPromises_run args callback K' sched'))"
      and "callback (args ! index) = Throws thrown"
    using thrower_entry[OF mp that(1)] that(2) by simp
  have d1: "fst (promiseConcurrency callbacks K) = Some thrown"
    if "index < length callbacks" and "int index < K" and "callbacks ! index = Throws thrown"
      and "\<forall>i < index. returns (callbacks ! i)"
    unfolding promiseConcurrency_def
    using that by (intro launch_throws[where index = index]) (simp_all add: Runner_init_def)
  have d2: "fst (mapPromises args callback K') = Some thrown"
    if "index < length args" and "int index < K'" and "callback (args ! index) = Throws thrown"
      and "\<forall>i < index. returns (callback (args ! i))"
    unfolding mapPromises_def
    using that by (intro launch_throws[where index = index]) (simp_all add: Runner_init_def)
  have e: "uncaught (runner_step n start_item r Immediate) = uncaught r @ [thrown]"
    if "immediates r \<noteq> 0" and "cursor r < n" and "start_item (cursor r) = Throws thrown"
    using that by (rule immediate_throws)
  have f1: "promise (deferred (promiseConcurrency_run callbacks K sched)) = Pending"
    if "index < length callbacks" and "callbacks ! index = Throws thrown"
  proof (cases "promise (deferred (promiseConcurrency_run callbacks K sched))")
    case Pending
    then show ?thesis .
  next
    case (FulfilledWith rs)
    with pc have "settled (promiseConcurrency_run callbacks K sched) = length callbacks"
      by (simp add: runner_inv_def)
    with pc have "\<forall>i < length callbacks. returns (callbacks ! i)"
      using inv_all_settled by blast
    with that show ?thesis by auto
  next
    case (RejectedWith x)
    with pc show ?thesis by (simp add: runner_inv_def)
  qed
  have f2: "promise (deferred (mapPromises_run args callback K' sched')) = Pending"
    if "index < length args" and "callback (args ! index) = Throws thrown"
  proof (cases "promise (deferred (mapPromises_run args callback K' sched'))")
    case Pending
    then show ?thesis .
  next
    case (FulfilledWith rs)
    with mp have "settled (mapPromises_run args callback K' sched') = length args"
      by (simp add: runner_inv_def)
    with mp have "\<forall>i < length args. returns (callback (args ! i))"
      using inv_all_settled by blast
    with that show ?thesis by auto
  next
    case (RejectedWith x)
    with mp show ?thesis by (simp add: runner_inv_def)
  qed
  from a1 a2 b1 b2 c1 c2 d1 d2 e f1 f2 show ?thesis by blast
qed

text \<open>
  The statement at the example calls: the second of three callbacks rejects and is
  recorded; the third of four callbacks throws, leaves its index empty and the promise
  pending, reaches the caller when three callbacks are started at once, and is uncaught
  when it is started from the immediate callback; the same for \<open>mapPromises\<close>.
\<close>

theorem C5_witness:
  "has_settled (promiseConcurrency_run three_callbacks 2 three_schedule) 1
   \<and> three_callbacks ! 1 = Returns (Rejects (JStr ''no''))
   \<and> results (promiseConcurrency_run three_callbacks 2 three_schedule) ! 1
       = Some (Result_rejected (JStr ''no''))
   \<and> 2 < length (results (promiseConcurrency_run four_callbacks 2 four_schedule))
   \<and> four_callbacks ! 2 = Throws (JStr ''boom'')
   \<and> results (promiseConcurrency_run four_callbacks 2 four_schedule) ! 2 = None
   \<and> 2 < length four_callbacks \<and> int 2 < 3
   \<and> returns (four_callbacks ! 0) \<and> returns (four_callbacks ! 1)
   \<and> fst (promiseConcurrency four_callbacks 3) = Some (JStr ''boom'')
   \<and> has_settled (mapPromises_run two_args reciprocal 1 two_schedule) 1
   \<and> reciprocal (two_args ! 1) = Returns (Rejects (JStr ''zero''))
   \<and> results (mapPromises_run two_args reciprocal 1 two_schedule) ! 1
       = Some (Result_rejected (JStr ''zero''))
   \<and> 2 < length (results (mapPromises_run four_args reciprocal 2 four_schedule))
   \<and> reciprocal (four_args ! 2) = Throws (JStr ''negative'')
   \<and> results (mapPromises_run four_args reciprocal 2 four_schedule) ! 2 = None
   \<and> 2 < length four_args
   \<and> returns (reciprocal (four_args ! 0)) \<and> returns (reciprocal (four_args ! 1))
   \<and> fst (mapPromises four_args reciprocal 3) = Some (JStr ''negative'')
   \<and> immediates (promiseConcurrency_run four_callbacks 2 [Settle 0]) \<noteq> 0
   \<and> cursor (promiseConcurrency_run four_callbacks 2 [Settle 0]) < 4
   \<and> uncaught (runner_step 4 (\<lambda>index. four_callbacks ! index)
        (promiseConcurrency_run four_callbacks 2 [Settle 0]) Immediate) = [JStr ''boom'']
   \<and> promise (deferred (promiseConcurrency_run four_callbacks 2 four_schedule)) = Pending
   \<and> promise (deferred (mapPromises_run four_args reciprocal 2 four_schedule)) = Pending"
proof -
  have a: "has_settled (promiseConcurrency_run three_callbacks 2 three_schedule) 1"
    by (simp add: three_run has_settled_def)
  have b: "three_callbacks ! 1 = Returns (Rejects (JStr ''no''))"
    by (simp add: three_callbacks_def)
  have c: "2 < length (results (promiseConcurrency_run four_callbacks 2 four_schedule))"
    by (simp add: four_run)
  have d: "four_callbacks ! 2 = Throws (JStr ''boom'')"
    by (simp add: four_callbacks_def)
  have e: "2 < length four_callbacks" "int 2 < 3" "\<forall>i < 2. returns (four_callbacks ! i)"
    by (simp_all add: four_callbacks_def less_Suc_eq numeral_2_eq_2)
  have f: "has_settled (mapPromises_run two_args reciprocal 1 two_schedule) 1"
    by (simp add: two_run has_settled_def)
  have g: "reciprocal (two_args ! 1) = Returns (Rejects (JStr ''zero''))"
    by (simp add: two_args_def reciprocal_def)
  have h: "2 < length (results (mapPromises_run four_args reciprocal 2 four_schedule))"
    by (simp add: four_args_run)
  have i: "reciprocal (four_args ! 2) = Throws (JStr ''negative'')"
    by (simp add: four_args_def reciprocal_def)
  have j: "2 < length four_args" "\<forall>i < 2. returns (reciprocal (four_args ! i))"
    by (simp_all add: four_args_def reciprocal_def less_Suc_eq numeral_2_eq_2)
  have k: "immediates (promiseConcurrency_run four_callbacks 2 [Settle 0]) \<noteq> 0"
    "cursor (promiseConcurrency_run four_callbacks 2 [Settle 0]) < 4"
    "(\<lambda>index. four_callbacks ! index)
       (cursor (promiseConcurrency_run four_callbacks 2 [Settle 0])) = Throws (JStr ''boom'')"
    "uncaught (promiseConcurrency_run four_callbacks 2 [Settle 0]) = []"
    unfolding four_first_run by (simp_all add: four_callbacks_def)
  note rejected = C5_rejections_recorded_throws_escape
    [where callbacks = three_callbacks and K = 2 and sched = three_schedule and index = 1
       and reason = "JStr ''no''" and args = two_args and callback = reciprocal and K' = 1
       and sched' = two_schedule and e = JNull and thrown = JNull
       and r = Runner_init and n = 0 and start_item = "\<lambda>index. four_callbacks ! index"]
  note rejected' = C5_rejections_recorded_throws_escape
    [where callbacks = three_callbacks and K = 2 and sched = three_schedule and index = 1
       and reason = "JStr ''zero''" and args = two_args and callback = reciprocal and K' = 1
       and sched' = two_schedule and e = JNull and thrown = JNull
       and r = Runner_init and n = 0 and start_item = "\<lambda>index. four_callbacks ! index"]
  note hole = C5_rejections_recorded_throws_escape
    [where callbacks = four_callbacks and K = 2 and sched = four_schedule and index = 2
       and reason = JNull and args = four_args and callback = reciprocal and K' = 2
       and sched' = four_schedule and e = JNull and thrown = "JStr ''boom''"
       and r = "promiseConcurrency_run four_callbacks 2 [Settle 0]" and n = 4
       and start_item = "\<lambda>index. four_callbacks ! index"]
  note hole' = C5_rejections_recorded_throws_escape
    [where callbacks = four_callbacks and K = 2 and sched = four_schedule and index = 2
       and reason = JNull and args = four_args and callback = reciprocal and K' = 2
       and sched' = four_schedule and e = JNull and thrown = "JStr ''negative''"
       and r = Runner_init and n = 0 and start_item = "\<lambda>index. four_callbacks ! index"]
  note caller = C5_rejections_recorded_throws_escape
    [where callbacks = four_callbacks and K = 3 and sched = "[]" and index = 2
       and reason = JNull and args = four_args and callback = reciprocal and K' = 3
       and sched' = "[]" and e = JNull and thrown = "JStr ''boom''"
       and r = Runner_init and n = 0 and start_item = "\<lambda>index. four_callbacks ! index"]
  note caller' = C5_rejections_recorded_throws_escape
    [where callbacks = four_callbacks and K = 3 and sched = "[]" and index = 2
       and reason = JNull and args = four_args and callback = reciprocal and K' = 3
       and sched' = "[]" and e = JNull and thrown = "JStr ''negative''"
       and r = Runner_init and n = 0 and start_item = "\<lambda>index. four_callbacks ! index"]
  have r1: "results (promiseConcurrency_run three_callbacks 2 three_schedule) ! 1
              = Some (Result_rejected (JStr ''no''))"
    using rejected a b by blast
  have r2: "results (mapPromises_run two_args reciprocal 1 two_schedule) ! 1
              = Some (Result_rejected (JStr ''zero''))"
    using rejected' f g by blast
  have r3: "results (promiseConcurrency_run four_callbacks 2 four_schedule) ! 2 = None"
    using hole c d by blast
  have r4: "results (mapPromises_run four_args reciprocal 2 four_schedule) ! 2 = None"
    using hole' h i by blast
  have r5: "fst (promiseConcurrency four_callbacks 3) = Some (JStr ''boom'')"
    using caller d e by simp
  have r6: "fst (mapPromises four_args reciprocal 3) = Some (JStr ''negative'')"
    using caller' i j e(2) by simp
  have r7: "uncaught (runner_step 4 (\<lambda>index. four_callbacks ! index)
              (promiseConcurrency_run four_callbacks 2 [Settle 0]) Immediate) = [JStr ''boom'']"
    using hole k by simp
  have l: "returns (four_callbacks ! 0)" "returns (four_callbacks ! 1)"
    "returns (reciprocal (four_args ! 0))" "returns (reciprocal (four_args ! 1))"
    by (simp_all add: four_callbacks_def four_args_def reciprocal_def)
  have r8: "promise (deferred (promiseConcurrency_run four_callbacks 2 four_schedule)) = Pending"
    using hole d e(1) by blast
  have r9: "promise (deferred (mapPromises_run four_args reciprocal 2 four_schedule)) = Pending"
    using hole' i j(1) by blast
  from a b c d e(1,2) f g h i j(1) k(1,2) l r1 r2 r3 r4 r5 r6 r7 r8 r9 show ?thesis by simp
qed

text \<open>
  The claim as stated says that every failure of an item becomes an entry of the
  results and none propagates to the caller. A single callback that throws: the
  exception reaches the caller of \<open>promiseConcurrency\<close>; were the call to go on, the
  results would stay empty and the promise pending.
\<close>

theorem C5_throwing_worker_counterexample:
  "fst (promiseConcurrency throwing_callbacks 1) = Some (JStr ''boom'')
   \<and> results (promiseConcurrency_run throwing_callbacks 1 [Immediate, Settle 0]) = []
   \<and> promise (deferred (promiseConcurrency_run throwing_callbacks 1 [Immediate, Settle 0]))
       = Pending"
  by (simp add: promiseConcurrency_run_def promiseConcurrency_def throwing_callbacks_def
        launch.simps next_item_def Runner_init_def Deferred_new_def)

subsection \<open>Bounded concurrency and the order of the results\<close>

text \<open>
  C6. For \<open>promiseConcurrency(callbacks, K)\<close> with \<open>1 \<le> K < N\<close> and every schedule: at most
  \<open>K\<close> items are in flight; if the returned promise is fulfilled then all \<open>N\<close> items have
  settled (so every callback has returned a promise), none is in flight, and the value
  is the array of the \<open>N\<close> results, each at the index of its callback; and when every
  callback returns a promise, once nothing is in flight and no \<open>next\<close> is scheduled, the
  promise is fulfilled with that array.
\<close>

theorem C6_promiseConcurrency_bounded_in_order:
  assumes "1 \<le> K" and "K < int (length callbacks)"
  shows "length (inflight (promiseConcurrency_run callbacks K sched)) \<le> nat K
       \<and> (\<forall>rs. promise (deferred (promiseConcurrency_run callbacks K sched)) = FulfilledWith rs
             \<longrightarrow> settled (promiseConcurrency_run callbacks K sched) = length callbacks
               \<and> inflight (promiseConcurrency_run callbacks K sched) = []
               \<and> (\<forall>c \<in> set callbacks. returns c)
               \<and> rs = map entry callbacks)
       \<and> ((\<forall>c \<in> set callbacks. returns c)
            \<and> inflight (promiseConcurrency_run callbacks K sched) = []
            \<and> immediates (promiseConcurrency_run callbacks K sched) = 0
          \<longrightarrow> promise (deferred (promiseConcurrency_run callbacks K sched))
                = FulfilledWith (map entry callbacks))"
proof -
  define r where "r = promiseConcurrency_run callbacks K sched"
  define n where "n = length callbacks"
  have r: "r = foldl (runner_step n (\<lambda>index. callbacks ! index))
                 (snd (launch K (next_item n (\<lambda>index. callbacks ! index)) Runner_init)) sched"
    by (simp add: r_def n_def promiseConcurrency_run_def promiseConcurrency_def)
  have inv: "runner_inv n (\<lambda>index. callbacks ! index) r"
    unfolding r by (rule run_inv)
  have bound: "length (inflight r) \<le> nat K"
    unfolding r by (rule run_load)
  have all_iff: "(\<forall>i < n. returns (callbacks ! i)) = (\<forall>c \<in> set callbacks. returns c)"
    by (auto simp: n_def all_set_conv_all_nth)
  have resolved: "settled r = n \<and> inflight r = [] \<and> (\<forall>c \<in> set callbacks. returns c)
                  \<and> rs = map entry callbacks"
    if "promise (deferred r) = FulfilledWith rs" for rs
  proof -
    from inv that have s: "settled r = n" and rs: "rs = results r"
      by (simp_all add: runner_inv_def)
    from inv s have "results r = map (\<lambda>i. entry (callbacks ! i)) [0..<n]"
      by (rule inv_resolved_results)
    moreover from inv s have "inflight r = []" and "\<forall>i < n. returns (callbacks ! i)"
      by (simp_all add: inv_all_settled)
    ultimately show ?thesis using s rs all_iff by (simp add: n_def map_entry_nth)
  qed
  have quiescent: "promise (deferred r) = FulfilledWith (map entry callbacks)"
    if "(\<forall>c \<in> set callbacks. returns c) \<and> inflight r = [] \<and> immediates r = 0"
  proof -
    from that all_iff have all: "\<forall>i < n. returns (callbacks ! i)" by simp
    have live: "runner_live r"
      unfolding r using assms(1) all by (rule run_live)
    show ?thesis
    proof (cases "promise (deferred r)")
      case Pending
      with live that show ?thesis by (simp add: runner_live_def)
    next
      case (FulfilledWith rs)
      with resolved[OF FulfilledWith] show ?thesis by simp
    next
      case (RejectedWith e)
      with inv show ?thesis by (simp add: runner_inv_def)
    qed
  qed
  from bound resolved quiescent show ?thesis
    unfolding r_def n_def by blast
qed

text \<open>
  The statement at the example call: after the first settlement at most two items
  are in flight, and at the end of the schedule the promise is fulfilled with the three
  results in input order, although the second item settled first.
\<close>

theorem C6_witness:
  "(1::int) \<le> 2 \<and> (2::int) < int (length three_callbacks)
   \<and> length (inflight (promiseConcurrency_run three_callbacks 2 (take 1 three_schedule))) \<le> 2
   \<and> promise (deferred (promiseConcurrency_run three_callbacks 2 three_schedule))
       = FulfilledWith [Some (Result_fulfilled (JNum 1)), Some (Result_rejected (JStr ''no'')),
                        Some (Result_fulfilled (JNum 3))]
   \<and> settled (promiseConcurrency_run three_callbacks 2 three_schedule) = 3
   \<and> returns (three_callbacks ! 0) \<and> returns (three_callbacks ! 1)
   \<and> returns (three_callbacks ! 2)
   \<and> inflight (promiseConcurrency_run three_callbacks 2 three_schedule) = []
   \<and> immediates (promiseConcurrency_run three_callbacks 2 three_schedule) = 0"
  using C6_promiseConcurrency_bounded_in_order [of 2 three_callbacks three_schedule]
    C6_promiseConcurrency_bounded_in_order [of 2 three_callbacks "take 1 three_schedule"]
  by (simp add: three_run) (simp add: three_callbacks_def)

subsection \<open>A concurrency that is not positive\<close>

text \<open>
  C10. With \<open>concurrency \<le> 0\<close> the loop that starts the workers does not run: both
  entry points return normally in the initial state, no work item is called, no event of
  the runtime changes the state, and the returned promise stays pending, also for an
  empty list. The promise is settled by \<open>next\<close> alone: the settlement of an item leaves
  \<open>deferred\<close> as it is.
\<close>

theorem C10_nonpositive_concurrency_never_settles:
  assumes "K \<le> 0"
  shows "promiseConcurrency callbacks K = (None, Runner_init)
       \<and> mapPromises args callback K = (None, Runner_init)
       \<and> promiseConcurrency_run callbacks K sched = Runner_init
       \<and> mapPromises_run args callback K sched = Runner_init
       \<and> promise (deferred (promiseConcurrency_run callbacks K sched)) = Pending
       \<and> promise (deferred (mapPromises_run args callback K sched)) = Pending
       \<and> deferred (runner_step n start_item r (Settle index)) = deferred r"
proof -
  from assms have "promiseConcurrency callbacks K = (None, Runner_init)"
    by (simp add: promiseConcurrency_def launch_nonpositive)
  moreover from assms have "mapPromises args callback K = (None, Runner_init)"
    by (simp add: mapPromises_def launch_nonpositive)
  moreover from assms have "promiseConcurrency_run callbacks K sched = Runner_init"
    by (simp add: promiseConcurrency_run_def promiseConcurrency_def launch_nonpositive run_init)
  moreover from assms have "mapPromises_run args callback K sched = Runner_init"
    by (simp add: mapPromises_run_def mapPromises_def launch_nonpositive run_init)
  moreover have "promise (deferred Runner_init) = Pending"
    by (simp add: Runner_init_def Deferred_new_def)
  moreover have "deferred (runner_step n start_item r (Settle index)) = deferred r"
    by (cases "map_of (inflight r) index") simp_all
  ultimately show ?thesis by simp
qed

text \<open>The statement at concurrency 0, for an empty list and for a list of two arguments.\<close>

theorem C10_witness:
  "(0::int) \<le> 0
   \<and> promiseConcurrency_run [] 0 [Immediate, Settle 0] = Runner_init
   \<and> promise (deferred (promiseConcurrency_run [] 0 [Immediate, Settle 0])) = Pending
   \<and> promise (deferred (mapPromises_run two_args reciprocal 0 [Immediate, Settle 0])) = Pending"
  using C10_nonpositive_concurrency_never_settles [where K = 0 and callbacks = "[]"
          and sched = "[Immediate, Settle 0]" and args = two_args and callback = reciprocal
          and r = Runner_init and index = 0]
  by (simp add: Runner_init_def Deferred_new_def)

section \<open>Properties of the job scheduler\<close>

lemma emit_none: "emit env name EventEmitter_new = (None, None, EventEmitter_new)"
  by (simp add: emit_def EventEmitter_new_def)

lemma start_new:
  "start env fn EventLoop_new =
     (None, EventLoop_new\<lparr> eventLoopQueueProcessor := Some fn,
                           stopPromise := Some Deferred_new,
                           microtasks := [Execute],
                           emitted := [(''processing'', ProcessingEvent)] \<rparr>)"
proof -
  have "ee_disposed (ee EventLoop_new) = False"
    by (simp add: EventLoop_new_def EventEmitter_new_def)
  moreover have "ee EventLoop_new = EventEmitter_new" by (simp add: EventLoop_new_def)
  moreover have "microtasks EventLoop_new = []" "emitted EventLoop_new = []"
    "eventLoopQueueProcessor EventLoop_new = None"
    by (simp_all add: EventLoop_new_def)
  ultimately show ?thesis
    by (simp add: start_def schedule_def emit_event_def emit_none)
qed


lemma two_jobs_added_eq:
  "two_jobs_added =
     EventLoop_new\<lparr> eventLoopQueueStack := \<lparr> order = LIFO, items = [job_b, job_a] \<rparr>,
                    eventLoopQueueProcessor := Some 1,
                    stopPromise := Some Deferred_new,
                    microtasks := [Execute, Execute, Execute],
                    emitted := [(''processing'', ProcessingEvent)] \<rparr>"
  by (simp add: two_jobs_added_def job_a_def job_b_def start_new)
     (simp add: EventLoop_new_def Stack_new_def add_def schedule_def push_def Let_def)

lemma new_live: "\<not> ee_disposed EventEmitter_new"
  by (simp add: EventEmitter_new_def)

lemma started_facts:
  "\<not> ee_disposed (ee started_loop)"
  "emitted started_loop = [(''processing'', ProcessingEvent)]"
  "unhandled started_loop = []"
  "ee started_loop = EventEmitter_new"
proof -
  have e: "ee started_loop = EventEmitter_new"
    by (simp add: started_loop_def start_new) (simp add: EventLoop_new_def)
  show "ee started_loop = EventEmitter_new" by (rule e)
  show "\<not> ee_disposed (ee started_loop)"
    unfolding e by (rule new_live)
  show "emitted started_loop = [(''processing'', ProcessingEvent)]"
    by (simp add: started_loop_def start_new)
  show "unhandled started_loop = []"
    by (simp add: started_loop_def start_new) (simp add: EventLoop_new_def)
qed

text \<open>
  C2. The claim: the processing function is called on the jobs in the order they were
  added, none skipped. On the code it fails: \<open>start(fn)\<close> followed by two \<open>add\<close> calls in
  the same synchronous block leaves the queue \<open>[b, a]\<close>; the first run of \<open>#execute\<close>
  pops job \<open>a\<close>, and the second \<open>splice\<close> of \<open>pop()\<close> removes job \<open>b\<close> from the queue.
  After job \<open>a\<close> has settled nothing is left to run, and the processing function was
  called on \<open>a\<close> only.
\<close>

theorem C2_second_job_never_dispatched:
  "items (eventLoopQueueStack two_jobs_added) = [job_b, job_a]
   \<and> dispatched (loop_run example_env two_jobs_added
        [Tick, Tick, Tick, Tick, ProcessorSettles job_a (Resolves JNull), Tick, Tick, Tick])
      = [(1, job_a)]
   \<and> items (eventLoopQueueStack (loop_run example_env two_jobs_added
        [Tick, Tick, Tick, Tick, ProcessorSettles job_a (Resolves JNull), Tick, Tick, Tick]))
      = []
   \<and> microtasks (loop_run example_env two_jobs_added
        [Tick, Tick, Tick, Tick, ProcessorSettles job_a (Resolves JNull), Tick, Tick, Tick])
      = []
   \<and> timers (loop_run example_env two_jobs_added
        [Tick, Tick, Tick, Tick, ProcessorSettles job_a (Resolves JNull), Tick, Tick, Tick])
      = []
   \<and> running (loop_run example_env two_jobs_added
        [Tick, Tick, Tick, Tick, ProcessorSettles job_a (Resolves JNull), Tick, Tick, Tick])
      = []"
  by (simp add: two_jobs_added_eq)
     (simp add: job_a_def job_b_def no_options_def loop_run_def EventLoop_new_def
        schedule_def emit_event_def emit_none example_env_def
        execute_def size_stack_def fill_executing.simps pop_def splice1_def indexOf_def
        dispatch_def positive_def processJob_def processor_settles_def then_reaction_def
        catch_reaction_def finally_reaction_def Let_def)

text \<open>
  C7. The claim: \<open>dispose()\<close> on a scheduler that is not processing, a second
  consecutive call included, completes without error. On the code the first call
  completes (and resolves the stop promise of a started scheduler once), and the second
  call throws: \<open>removeAllEventListeners\<close> reaches \<open>removeListeners\<close> of the emitter that
  the first call has disposed.
\<close>

theorem C7_second_dispose_throws:
  "fst (dispose EventLoop_new) = None
   \<and> fst (dispose (snd (dispose EventLoop_new)))
       = Some (Exception ''EventEmitter has been disposed'')
   \<and> fst (dispose (snd (start example_env 1 EventLoop_new))) = None
   \<and> stopped (snd (dispose (snd (start example_env 1 EventLoop_new))))
       = [Deferred_resolve () Deferred_new]
   \<and> fst (dispose (snd (dispose (snd (start example_env 1 EventLoop_new)))))
       = Some (Exception ''EventEmitter has been disposed'')"
  by (simp add: start_new)
     (simp add: dispose_def EventLoop_new_def EventEmitter_new_def removeListeners_def
        EventEmitter_dispose_def clear_def Let_def)

text \<open>
  C9. On a scheduler that has a processing function, \<open>start\<close> throws the exception
  \<open>SyncQueue is already processing\<close> and changes nothing: the processing function
  registered first stays in place.
\<close>

theorem C9_start_twice_fails:
  "eventLoopQueueProcessor s = Some fn
     \<Longrightarrow> start env fn' s = (Some (Exception ''SyncQueue is already processing''), s)
       \<and> eventLoopQueueProcessor (snd (start env fn' s)) = Some fn"
  by (simp add: start_def)

text \<open>The statement at a second \<open>start\<close> on a scheduler that has just been started.\<close>

theorem C9_witness:
  "eventLoopQueueProcessor (snd (start example_env 1 EventLoop_new)) = Some 1
   \<and> start example_env 2 (snd (start example_env 1 EventLoop_new))
       = (Some (Exception ''SyncQueue is already processing''),
          snd (start example_env 1 EventLoop_new))"
proof -
  have p: "eventLoopQueueProcessor (snd (start example_env 1 EventLoop_new)) = Some 1"
    by (simp add: start_new)
  from p C9_start_twice_fails [OF p, of example_env 2] show ?thesis by simp
qed

subsection \<open>Settlement of a job\<close>

lemma emit_disposed_kept:
  "\<not> ee_disposed e \<Longrightarrow> \<not> ee_disposed (snd (snd (emit env name e)))"
  by (auto simp: emit_def split: option.splits prod.splits)

lemma emit_event_emitted:
  assumes "\<not> ee_disposed (ee s)"
  shows "emitted (snd (emit_event env name ev s)) = emitted s @ [(name, ev)]"
  using assms by (simp add: emit_event_def split: prod.splits)




lemma catch_reaction_emitted:
  assumes "\<not> ee_disposed (ee s)" and "normalize_error env err = Inr error"
  shows "emitted (catch_reaction env job (Rejects err) s)
           = emitted s @ [(''failed'', FailedEvent job error)]"
proof -
  have "emitted (snd (emit_event env ''failed'' (FailedEvent job error) s))
          = emitted s @ [(''failed'', FailedEvent job error)]"
    using assms(1) by (rule emit_event_emitted)
  with assms(2) show ?thesis
    by (auto simp: catch_reaction_def schedule_def split: prod.splits option.splits)
qed

lemma catch_reaction_thrown:
  assumes "normalize_error env err = Inl thrown"
  shows "emitted (catch_reaction env job (Rejects err) s) = emitted s
       \<and> unhandled (catch_reaction env job (Rejects err) s) = unhandled s @ [thrown]"
  using assms by (simp add: catch_reaction_def schedule_def)

lemma normalize_converted:
  assumes "typeof err \<noteq> ''object'' \<or> (isPlainObject env err \<and> err \<noteq> JNull)"
  shows "normalize_error env err = Error_new env (error_argument err)"
  using assms by (auto simp: normalize_error_def)











text \<open>
  C8, as amended. The promise of the processing function is rejected and the emitter
  is not disposed. A reason that is not of type \<open>object\<close>, or that is an object other
  than \<open>null\<close> accepted by \<open>isPlainObject\<close>, is passed to \<open>new Error\<close>, for such an object
  by its \<open>message\<close> when it has one. When that argument is \<open>undefined\<close> the \<open>failed\<close>
  event carries an Error with an empty message; when it converts to a string, the
  \<open>failed\<close> event carries an Error with that string as its message; when the conversion
  throws (a Symbol), no \<open>failed\<close> event is emitted and the exception of the conversion
  is the unhandled rejection of the chain. A reason of type \<open>object\<close> that \<open>isPlainObject\<close>
  does not accept reaches the \<open>failed\<close> event unchanged. The reason \<open>null\<close>, when
  \<open>isPlainObject\<close> accepts it, makes the handler throw on \<open>err.message\<close>: no \<open>failed\<close>
  event is emitted.
\<close>

theorem C8_error_normalization:
  assumes "\<not> ee_disposed (ee s)"
  shows "(typeof err \<noteq> ''object'' \<or> (isPlainObject env err \<and> err \<noteq> JNull)
            \<longrightarrow> (error_argument err = JUndefined
                   \<longrightarrow> emitted (catch_reaction env job (Rejects err) s)
                         = emitted s @ [(''failed'', FailedEvent job (JObject ErrorObject (JStr [])))])
                \<and> (error_argument err \<noteq> JUndefined
                     \<and> ToString env (error_argument err) = Inr msg
                   \<longrightarrow> instanceof_Error (JObject ErrorObject (JStr msg))
                       \<and> emitted (catch_reaction env job (Rejects err) s)
                           = emitted s @ [(''failed'', FailedEvent job (JObject ErrorObject (JStr msg)))])
                \<and> (error_argument err \<noteq> JUndefined
                     \<and> ToString env (error_argument err) = Inl thrown
                   \<longrightarrow> emitted (catch_reaction env job (Rejects err) s) = emitted s
                       \<and> unhandled (catch_reaction env job (Rejects err) s)
                           = unhandled s @ [thrown]))
       \<and> (typeof err = ''object'' \<and> \<not> isPlainObject env err
            \<longrightarrow> emitted (catch_reaction env job (Rejects err) s)
                  = emitted s @ [(''failed'', FailedEvent job err)])
       \<and> (err = JNull \<and> isPlainObject env err
            \<longrightarrow> emitted (catch_reaction env job (Rejects err) s) = emitted s
                \<and> unhandled (catch_reaction env job (Rejects err) s)
                    = unhandled s @ [TypeError ''Cannot read properties of null (reading message)''])"
proof (intro conjI impI)
  assume a: "typeof err \<noteq> ''object'' \<or> (isPlainObject env err \<and> err \<noteq> JNull)"
    and u: "error_argument err = JUndefined"
  from a have "normalize_error env err = Error_new env (error_argument err)"
    by (rule normalize_converted)
  with u have "normalize_error env err = Inr (JObject ErrorObject (JStr []))"
    by (simp add: Error_new_def)
  with assms show "emitted (catch_reaction env job (Rejects err) s)
                     = emitted s @ [(''failed'', FailedEvent job (JObject ErrorObject (JStr [])))]"
    by (rule catch_reaction_emitted)
next
  assume a: "typeof err \<noteq> ''object'' \<or> (isPlainObject env err \<and> err \<noteq> JNull)"
    and t: "error_argument err \<noteq> JUndefined \<and> ToString env (error_argument err) = Inr msg"
  from a have "normalize_error env err = Error_new env (error_argument err)"
    by (rule normalize_converted)
  with t have "normalize_error env err = Inr (JObject ErrorObject (JStr msg))"
    by (simp add: Error_new_def)
  with assms show "emitted (catch_reaction env job (Rejects err) s)
                     = emitted s @ [(''failed'', FailedEvent job (JObject ErrorObject (JStr msg)))]"
    by (rule catch_reaction_emitted)
next
  show "instanceof_Error (JObject ErrorObject (JStr msg))" by simp
next
  assume a: "typeof err \<noteq> ''object'' \<or> (isPlainObject env err \<and> err \<noteq> JNull)"
    and t: "error_argument err \<noteq> JUndefined \<and> ToString env (error_argument err) = Inl thrown"
  from a have "normalize_error env err = Error_new env (error_argument err)"
    by (rule normalize_converted)
  with t have n: "normalize_error env err = Inl thrown"
    by (simp add: Error_new_def)
  from catch_reaction_thrown[OF n]
  show "emitted (catch_reaction env job (Rejects err) s) = emitted s"
    and "unhandled (catch_reaction env job (Rejects err) s) = unhandled s @ [thrown]"
    by simp_all
next
  assume "typeof err = ''object'' \<and> \<not> isPlainObject env err"
  then have "normalize_error env err = Inr err"
    by (simp add: normalize_error_def)
  with assms show "emitted (catch_reaction env job (Rejects err) s)
                     = emitted s @ [(''failed'', FailedEvent job err)]"
    by (rule catch_reaction_emitted)
next
  assume "err = JNull \<and> isPlainObject env err"
  then have n: "normalize_error env err
                  = Inl (TypeError ''Cannot read properties of null (reading message)'')"
    by (auto simp: normalize_error_def)
  from catch_reaction_thrown[OF n]
  show "emitted (catch_reaction env job (Rejects err) s) = emitted s"
    and "unhandled (catch_reaction env job (Rejects err) s)
           = unhandled s @ [TypeError ''Cannot read properties of null (reading message)'']"
    by simp_all
qed

text \<open>
  The statement on a scheduler that has just been started, for a string, for
  \<open>undefined\<close>, for a Symbol, for an Error, for a plain object whose message is a string
  and one whose message is a Symbol, and for \<open>null\<close> with a helper that accepts it.
\<close>

theorem C8_witness:
  "\<not> ee_disposed (ee started_loop)
   \<and> typeof (JStr ''bad'') \<noteq> ''object''
   \<and> error_argument (JStr ''bad'') \<noteq> JUndefined
   \<and> ToString example_env (error_argument (JStr ''bad'')) = Inr ''bad''
   \<and> emitted (catch_reaction example_env job_a (Rejects (JStr ''bad'')) started_loop)
      = [(''processing'', ProcessingEvent),
         (''failed'', FailedEvent job_a (JObject ErrorObject (JStr ''bad'')))]
   \<and> typeof JUndefined \<noteq> ''object'' \<and> error_argument JUndefined = JUndefined
   \<and> emitted (catch_reaction example_env job_a (Rejects JUndefined) started_loop)
      = [(''processing'', ProcessingEvent),
         (''failed'', FailedEvent job_a (JObject ErrorObject (JStr [])))]
   \<and> typeof (JSymbol 0) \<noteq> ''object''
   \<and> error_argument (JSymbol 0) \<noteq> JUndefined
   \<and> ToString example_env (error_argument (JSymbol 0))
       = Inl (TypeError ''Cannot convert a Symbol value to a string'')
   \<and> emitted (catch_reaction example_env job_a (Rejects (JSymbol 0)) started_loop)
      = [(''processing'', ProcessingEvent)]
   \<and> unhandled (catch_reaction example_env job_a (Rejects (JSymbol 0)) started_loop)
      = [TypeError ''Cannot convert a Symbol value to a string'']
   \<and> typeof (JObject ErrorObject (JStr ''boom'')) = ''object''
   \<and> \<not> isPlainObject example_env (JObject ErrorObject (JStr ''boom''))
   \<and> emitted (catch_reaction example_env job_a (Rejects (JObject ErrorObject (JStr ''boom''))) started_loop)
      = [(''processing'', ProcessingEvent),
         (''failed'', FailedEvent job_a (JObject ErrorObject (JStr ''boom'')))]
   \<and> isPlainObject example_env (JObject PlainObject (JStr ''m''))
   \<and> error_argument (JObject PlainObject (JStr ''m'')) = JStr ''m''
   \<and> emitted (catch_reaction example_env job_a (Rejects (JObject PlainObject (JStr ''m''))) started_loop)
      = [(''processing'', ProcessingEvent),
         (''failed'', FailedEvent job_a (JObject ErrorObject (JStr ''m'')))]
   \<and> isPlainObject example_env (JObject PlainObject (JSymbol 0))
   \<and> error_argument (JObject PlainObject (JSymbol 0)) = JSymbol 0
   \<and> emitted (catch_reaction example_env job_a (Rejects (JObject PlainObject (JSymbol 0))) started_loop)
      = [(''processing'', ProcessingEvent)]
   \<and> unhandled (catch_reaction example_env job_a (Rejects (JObject PlainObject (JSymbol 0))) started_loop)
      = [TypeError ''Cannot convert a Symbol value to a string'']
   \<and> isPlainObject typeof_env JNull
   \<and> emitted (catch_reaction typeof_env job_a (Rejects JNull) started_loop)
      = [(''processing'', ProcessingEvent)]
   \<and> unhandled (catch_reaction typeof_env job_a (Rejects JNull) started_loop)
      = [TypeError ''Cannot read properties of null (reading message)'']"
proof -
  note live = started_facts(1)
  have h: "typeof (JStr ''bad'') \<noteq> ''object''" "error_argument (JStr ''bad'') \<noteq> JUndefined"
    "ToString example_env (error_argument (JStr ''bad'')) = Inr ''bad''"
    "typeof JUndefined \<noteq> ''object''" "error_argument JUndefined = JUndefined"
    "typeof (JSymbol 0) \<noteq> ''object''" "error_argument (JSymbol 0) \<noteq> JUndefined"
    "ToString example_env (error_argument (JSymbol 0))
       = Inl (TypeError ''Cannot convert a Symbol value to a string'')"
    "typeof (JObject ErrorObject (JStr ''boom'')) = ''object''"
    "\<not> isPlainObject example_env (JObject ErrorObject (JStr ''boom''))"
    by (simp_all add: error_argument_def example_env_def)
  note c1 = C8_error_normalization [OF live, where err = "JStr ''bad''" and env = example_env
      and job = job_a and msg = "''bad''" and thrown = JNull]
  note c2 = C8_error_normalization [OF live, where err = JUndefined and env = example_env
      and job = job_a and msg = "[]" and thrown = JNull]
  note c3 = C8_error_normalization [OF live, where err = "JSymbol 0" and env = example_env
      and job = job_a and msg = "[]"
      and thrown = "TypeError ''Cannot convert a Symbol value to a string''"]
  note c4 = C8_error_normalization [OF live, where err = "JObject ErrorObject (JStr ''boom'')"
      and env = example_env and job = job_a and msg = "[]" and thrown = JNull]
  have r1: "emitted (catch_reaction example_env job_a (Rejects (JStr ''bad'')) started_loop)
      = [(''processing'', ProcessingEvent),
         (''failed'', FailedEvent job_a (JObject ErrorObject (JStr ''bad'')))]"
    using c1 h(1,2,3) by (simp add: started_facts(2))
  have r2: "emitted (catch_reaction example_env job_a (Rejects JUndefined) started_loop)
      = [(''processing'', ProcessingEvent),
         (''failed'', FailedEvent job_a (JObject ErrorObject (JStr [])))]"
    using c2 h(4,5) by (simp add: started_facts(2))
  have r3: "emitted (catch_reaction example_env job_a (Rejects (JSymbol 0)) started_loop)
      = [(''processing'', ProcessingEvent)]"
    "unhandled (catch_reaction example_env job_a (Rejects (JSymbol 0)) started_loop)
      = [TypeError ''Cannot convert a Symbol value to a string'']"
    using c3 h(6,7,8) by (simp_all add: started_facts(2,3))
  have r4: "emitted (catch_reaction example_env job_a (Rejects (JObject ErrorObject (JStr ''boom''))) started_loop)
      = [(''processing'', ProcessingEvent),
         (''failed'', FailedEvent job_a (JObject ErrorObject (JStr ''boom'')))]"
    using c4 h(9,10) by (simp add: started_facts(2))
  have p: "isPlainObject typeof_env JNull"
    by (simp add: typeof_env_def)
  note c5 = C8_error_normalization [OF live, where err = JNull and env = typeof_env
      and job = job_a and msg = "[]" and thrown = JNull]
  have r5: "emitted (catch_reaction typeof_env job_a (Rejects JNull) started_loop)
      = [(''processing'', ProcessingEvent)]"
    "unhandled (catch_reaction typeof_env job_a (Rejects JNull) started_loop)
      = [TypeError ''Cannot read properties of null (reading message)'']"
    using c5 p by (simp_all add: started_facts(2,3))
  have q: "isPlainObject example_env (JObject PlainObject (JStr ''m''))"
    "JObject PlainObject (JStr ''m'') \<noteq> JNull"
    "error_argument (JObject PlainObject (JStr ''m'')) = JStr ''m''"
    "error_argument (JObject PlainObject (JStr ''m'')) \<noteq> JUndefined"
    "ToString example_env (error_argument (JObject PlainObject (JStr ''m''))) = Inr ''m''"
    "isPlainObject example_env (JObject PlainObject (JSymbol 0))"
    "JObject PlainObject (JSymbol 0) \<noteq> JNull"
    "error_argument (JObject PlainObject (JSymbol 0)) = JSymbol 0"
    "error_argument (JObject PlainObject (JSymbol 0)) \<noteq> JUndefined"
    "ToString example_env (error_argument (JObject PlainObject (JSymbol 0)))
       = Inl (TypeError ''Cannot convert a Symbol value to a string'')"
    by (simp_all add: error_argument_def message_or_self_def example_env_def)
  note c6 = C8_error_normalization [OF live, where err = "JObject PlainObject (JStr ''m'')"
      and env = example_env and job = job_a and msg = "''m''" and thrown = JNull]
  note c7 = C8_error_normalization [OF live, where err = "JObject PlainObject (JSymbol 0)"
      and env = example_env and job = job_a and msg = "[]"
      and thrown = "TypeError ''Cannot convert a Symbol value to a string''"]
  have r6: "emitted (catch_reaction example_env job_a (Rejects (JObject PlainObject (JStr ''m''))) started_loop)
      = [(''processing'', ProcessingEvent),
         (''failed'', FailedEvent job_a (JObject ErrorObject (JStr ''m'')))]"
    using c6 q(1,2,4,5) by (simp add: started_facts(2))
  have r7: "emitted (catch_reaction example_env job_a (Rejects (JObject PlainObject (JSymbol 0))) started_loop)
      = [(''processing'', ProcessingEvent)]"
    "unhandled (catch_reaction example_env job_a (Rejects (JObject PlainObject (JSymbol 0))) started_loop)
      = [TypeError ''Cannot convert a Symbol value to a string'']"
    using c7 q(6,7,9,10) by (simp_all add: started_facts(2,3))
  from live h p q(1,3,6,8) r1 r2 r3 r4 r5 r6 r7 show ?thesis by simp
qed

text \<open>
  The claim as stated says that the \<open>error\<close> of a \<open>failed\<close> event is always an Error.
  An array is of type \<open>object\<close> and not a plain object: rejected with an array, the job
  fails with the array itself as its \<open>error\<close>.
\<close>

theorem C8_array_reason_counterexample:
  "emitted (loop_run example_env two_jobs_added
      [Tick, Tick, Tick, Tick,
       ProcessorSettles job_a (Rejects (JObject ArrayObject JUndefined)), Tick, Tick])
     = [(''processing'', ProcessingEvent),
        (''failed'', FailedEvent job_a (JObject ArrayObject JUndefined))]
   \<and> \<not> instanceof_Error (JObject ArrayObject JUndefined)"
  by (simp add: two_jobs_added_eq)
     (simp add: job_a_def job_b_def no_options_def loop_run_def EventLoop_new_def
        schedule_def emit_event_def emit_none new_live example_env_def
        execute_def size_stack_def fill_executing.simps pop_def splice1_def indexOf_def
        dispatch_def positive_def processJob_def processor_settles_def then_reaction_def
        catch_reaction_def normalize_error_def Let_def)

text \<open>
  The \<open>emit\<close> of \<open>completed\<close> can throw: a listener throws \<open>null\<close>, the default error
  handler reads \<open>err.message\<close> and throws a TypeError, and the \<open>catch\<close> handler of the
  chain emits \<open>failed\<close> for a job whose processing function has succeeded.
\<close>

lemma listener_error_escapes_emit:
  "map fst (emitted (loop_run null_listener_env listening_loop
      [Tick, Tick, Tick, ProcessorSettles job_a (Resolves JNull), Tick, Tick, Tick]))
     = [''processing'', ''completed'', ''failed'']
   \<and> unhandled (loop_run null_listener_env listening_loop
      [Tick, Tick, Tick, ProcessorSettles job_a (Resolves JNull), Tick, Tick, Tick]) = []"
  by (simp add: listening_loop_def started_loop_def start_new)
     (simp add: job_a_def no_options_def loop_run_def EventLoop_new_def EventEmitter_new_def
        addEventListener_def subscribe_def add_def push_def Stack_new_def
        execute_def size_stack_def fill_executing.simps pop_def splice1_def indexOf_def
        dispatch_def positive_def processJob_def processor_settles_def
        then_reaction_def catch_reaction_def emit_event_def emit_def emit_loop.simps
        call_listener_def errorHandler_def default_errorHandler_def null_listener_env_def
        example_env_def schedule_def normalize_error_def TypeError_def finally_reaction_def
        Let_def)

end
